theory Spec2Isabelle
  imports Complex_Main "HOL-Library.Multiset" "HOL-Library.Word"
begin

section \<open>Python values used by the pipeline\<close>

text \<open>
  The exceptions that can travel through \<^verbatim>\<open>src/app.py\<close>. \<open>ValueError\<close>,
  \<open>TypeError\<close>, \<open>OverflowError\<close> and \<open>KeyError\<close> are Python's built-in ones;
  \<open>FitParseError\<close> stands for whatever the binary decoder raises and \<open>XMLSyntaxError\<close>
  for whatever the XML parser raises; \<open>XPathEvalError\<close> is raised for an undeclared
  namespace prefix in a path query.
\<close>

datatype pyerror =
    ValueError | TypeError | OverflowError | KeyError
  | FitParseError | XMLSyntaxError | XPathEvalError

text \<open>
  A Python \<open>float\<close>: an IEEE-754 binary64 value. A finite value is kept as the
  real number it denotes; the two zeros are not told apart.
\<close>

datatype pyfloat = Finite real | PosInf | NegInf | NaN

definition round_half_even :: "real \<Rightarrow> int" where
  "round_half_even y =
     (let f = \<lfloor>y\<rfloor>; d = y - of_int f
      in if d < 1 / 2 then f
         else if 1 / 2 < d then f + 1
         else if even f then f else f + 1)"

text \<open>\<open>ilog2 a\<close> is \<open>\<lfloor>log\<^sub>2 a\<rfloor>\<close> for a positive real \<open>a\<close>.\<close>

function ilog2 :: "real \<Rightarrow> int" where
  "ilog2 a =
     (if 2 \<le> a then ilog2 (a / 2) + 1
      else if 0 < a \<and> a < 1 then ilog2 (a * 2) - 1
      else 0)"
  by pat_completeness auto
termination
proof (relation "measure (\<lambda>a. if 2 \<le> a then nat \<lceil>a\<rceil>
                                  else if 0 < a \<and> a < 1 then nat \<lceil>1 / a\<rceil> else 0)")
  show "wf (measure (\<lambda>a::real. if 2 \<le> a then nat \<lceil>a\<rceil>
                                  else if 0 < a \<and> a < 1 then nat \<lceil>1 / a\<rceil> else 0))"
    by simp
next
  fix a :: real
  assume a: "2 \<le> a"
  have "a / 2 \<le> a - 1" using a by simp
  then have "\<lceil>a / 2\<rceil> \<le> \<lceil>a\<rceil> - 1"
    by (metis ceiling_diff_one ceiling_mono)
  moreover have "0 < \<lceil>a\<rceil>" using a by simp
  ultimately show "(a / 2, a) \<in> measure (\<lambda>a. if 2 \<le> a then nat \<lceil>a\<rceil>
                                  else if 0 < a \<and> a < 1 then nat \<lceil>1 / a\<rceil> else 0)"
    using a by auto
next
  fix a :: real
  assume "\<not> 2 \<le> a" and a: "0 < a \<and> a < 1"
  have b: "2 \<le> 1 / a \<Longrightarrow> 1 / (a * 2) \<le> 1 / a - 1" using a by (simp add: field_simps)
  have c: "1 < 1 / a" using a by simp
  then have d: "1 < \<lceil>1 / a\<rceil>" by (simp add: less_ceiling_iff)
  show "(a * 2, a) \<in> measure (\<lambda>a. if 2 \<le> a then nat \<lceil>a\<rceil>
                                  else if 0 < a \<and> a < 1 then nat \<lceil>1 / a\<rceil> else 0)"
  proof (cases "a * 2 < 1")
    case True
    then have "2 \<le> 1 / a" using a by (simp add: field_simps)
    then have "\<lceil>1 / (a * 2)\<rceil> \<le> \<lceil>1 / a\<rceil> - 1"
      using b by (metis ceiling_diff_one ceiling_mono)
    then show ?thesis using a True d by auto
  next
    case False
    then show ?thesis using a d by auto
  qed
qed

text \<open>\<open>ipow b e\<close> is \<open>b\<^sup>e\<close> for an integer exponent of either sign.\<close>

definition ipow :: "real \<Rightarrow> int \<Rightarrow> real" where
  "ipow b e = (if 0 \<le> e then b ^ nat e else 1 / b ^ nat (- e))"

text \<open>
  Rounding of an exact value to the nearest binary64 value, ties to even, with gradual
  underflow below \<open>2\<^sup>-\<^sup>1\<^sup>0\<^sup>2\<^sup>2\<close> and overflow to an infinity from \<open>2\<^sup>1\<^sup>0\<^sup>2\<^sup>4\<close> on.
  \<open>ulp a\<close> is the distance between neighbouring binary64 values at the magnitude \<open>a\<close>,
  \<open>quantize q a\<close> the multiple of \<open>q\<close> nearest to \<open>a\<close>.
\<close>

definition ulp :: "real \<Rightarrow> real" where
  "ulp a = ipow 2 (max (ilog2 a) (- 1022) - 52)"

definition quantize :: "real \<Rightarrow> real \<Rightarrow> real" where
  "quantize q a = of_int (round_half_even (a / q)) * q"

definition round_magnitude :: "real \<Rightarrow> real" where
  "round_magnitude a = quantize (ulp a) a"

definition round_double :: "real \<Rightarrow> pyfloat" where
  "round_double x =
     (if x = 0 then Finite 0
      else if 2 ^ 1024 \<le> round_magnitude \<bar>x\<bar> then (if x < 0 then NegInf else PosInf)
      else Finite (if x < 0 then - round_magnitude \<bar>x\<bar> else round_magnitude \<bar>x\<bar>))"

text \<open>The product \<^verbatim>\<open>a * b\<close> of two floats.\<close>

fun float_mul :: "pyfloat \<Rightarrow> pyfloat \<Rightarrow> pyfloat" where
  "float_mul NaN _ = NaN"
| "float_mul _ NaN = NaN"
| "float_mul (Finite a) (Finite b) = round_double (a * b)"
| "float_mul (Finite a) PosInf = (if a = 0 then NaN else if 0 < a then PosInf else NegInf)"
| "float_mul (Finite a) NegInf = (if a = 0 then NaN else if 0 < a then NegInf else PosInf)"
| "float_mul PosInf (Finite b) = (if b = 0 then NaN else if 0 < b then PosInf else NegInf)"
| "float_mul NegInf (Finite b) = (if b = 0 then NaN else if 0 < b then NegInf else PosInf)"
| "float_mul PosInf PosInf = PosInf"
| "float_mul PosInf NegInf = NegInf"
| "float_mul NegInf PosInf = NegInf"
| "float_mul NegInf NegInf = PosInf"

text \<open>
  \<^verbatim>\<open>int(x)\<close> for a float \<open>x\<close>: truncation towards zero; an infinity raises
  \<open>OverflowError\<close> and a NaN raises \<open>ValueError\<close>.
\<close>

definition trunc :: "real \<Rightarrow> int" where
  "trunc q = (if 0 \<le> q then \<lfloor>q\<rfloor> else \<lceil>q\<rceil>)"

fun int_of_float :: "pyfloat \<Rightarrow> pyerror + int" where
  "int_of_float (Finite q) = Inr (trunc q)"
| "int_of_float PosInf = Inl OverflowError"
| "int_of_float NegInf = Inl OverflowError"
| "int_of_float NaN = Inl ValueError"

subsection \<open>Strings: \<^verbatim>\<open>str.strip\<close>, \<^verbatim>\<open>str.lower\<close>, \<^verbatim>\<open>str.endswith\<close>\<close>

text \<open>
  A \<open>string\<close> is a list of 8-bit characters, so the text handled here is ASCII text.
  The ASCII characters for which \<^verbatim>\<open>str.isspace\<close> holds are the codes 9 to 13, 28 to 31
  and 32.
\<close>

definition is_space :: "char \<Rightarrow> bool" where
  "is_space c =
     (let n = (of_char c :: nat) in (9 \<le> n \<and> n \<le> 13) \<or> (28 \<le> n \<and> n \<le> 32))"

definition strip :: "string \<Rightarrow> string" where
  "strip s = rev (dropWhile is_space (rev (dropWhile is_space s)))"

definition lower_char :: "char \<Rightarrow> char" where
  "lower_char c =
     (case map_of (zip ''ABCDEFGHIJKLMNOPQRSTUVWXYZ'' ''abcdefghijklmnopqrstuvwxyz'') c of
        None \<Rightarrow> c
      | Some l \<Rightarrow> l)"

definition lower :: "string \<Rightarrow> string" where
  "lower s = map lower_char s"

definition endswith :: "string \<Rightarrow> string \<Rightarrow> bool" where
  "endswith s suffix =
     (length suffix \<le> length s \<and> drop (length s - length suffix) s = suffix)"

subsection \<open>\<^verbatim>\<open>float(str)\<close>\<close>

text \<open>
  The grammar \<^verbatim>\<open>float\<close> accepts, after the surrounding whitespace is gone:
  \<^verbatim>\<open>[sign] (floatnumber | "inf" | "infinity" | "nan")\<close> in any letter case, where
  \<^verbatim>\<open>floatnumber ::= number [("e" | "E") [sign] digitpart]\<close>,
  \<^verbatim>\<open>number ::= [digitpart] "." digitpart | digitpart ["."]\<close> and
  \<^verbatim>\<open>digitpart ::= digit (["_"] digit)*\<close>. Anything else raises \<open>ValueError\<close>.
\<close>

definition is_digit :: "char \<Rightarrow> bool" where
  "is_digit c = (let n = (of_char c :: nat) in 48 \<le> n \<and> n \<le> 57)"

definition digit_val :: "char \<Rightarrow> nat" where
  "digit_val c = of_char c - 48"

fun digits_tail :: "string \<Rightarrow> nat list \<times> string" where
  "digits_tail [] = ([], [])"
| "digits_tail [c] = (if is_digit c then ([digit_val c], []) else ([], [c]))"
| "digits_tail (c # d # cs) =
     (if is_digit c then
        (case digits_tail (d # cs) of (ds, r) \<Rightarrow> (digit_val c # ds, r))
      else if c = CHR ''_'' \<and> is_digit d then
        (case digits_tail cs of (ds, r) \<Rightarrow> (digit_val d # ds, r))
      else ([], c # d # cs))"

definition digitpart :: "string \<Rightarrow> (nat list \<times> string) option" where
  "digitpart s =
     (case s of
        [] \<Rightarrow> None
      | c # cs \<Rightarrow>
          if is_digit c then
            (case digits_tail cs of (ds, r) \<Rightarrow> Some (digit_val c # ds, r))
          else None)"

text \<open>\<open>number s\<close>: the digits before the point, the digits after it, and the rest.\<close>

definition number :: "string \<Rightarrow> (nat list \<times> nat list \<times> string) option" where
  "number s =
     (case digitpart s of
        Some (ip, r) \<Rightarrow>
          (case r of
             [] \<Rightarrow> Some (ip, [], r)
           | c # r' \<Rightarrow>
               if c = CHR ''.'' then
                 (case digitpart r' of
                    Some (fp, r'') \<Rightarrow> Some (ip, fp, r'')
                  | None \<Rightarrow> Some (ip, [], r'))
               else Some (ip, [], r))
      | None \<Rightarrow>
          (case s of
             [] \<Rightarrow> None
           | c # r' \<Rightarrow>
               if c = CHR ''.'' then
                 (case digitpart r' of
                    Some (fp, r'') \<Rightarrow> Some ([], fp, r'')
                  | None \<Rightarrow> None)
               else None))"

definition split_sign :: "string \<Rightarrow> bool \<times> string" where
  "split_sign s =
     (case s of
        [] \<Rightarrow> (False, s)
      | c # cs \<Rightarrow>
          if c = CHR ''-'' then (True, cs)
          else if c = CHR ''+'' then (False, cs)
          else (False, s))"

text \<open>\<open>exponent s\<close>: the signed exponent, when \<open>s\<close> is empty or a whole exponent part.\<close>

definition nat_of_digits :: "nat list \<Rightarrow> nat" where
  "nat_of_digits ds = foldl (\<lambda>acc d. 10 * acc + d) 0 ds"

definition exponent :: "string \<Rightarrow> int option" where
  "exponent s =
     (case s of
        [] \<Rightarrow> Some 0
      | c # cs \<Rightarrow>
          if c = CHR ''e'' \<or> c = CHR ''E'' then
            (case split_sign cs of
               (neg, ds) \<Rightarrow>
                 (case digitpart ds of
                    Some (es, []) \<Rightarrow>
                      Some (if neg then - int (nat_of_digits es) else int (nat_of_digits es))
                  | Some (es, _ # _) \<Rightarrow> None
                  | None \<Rightarrow> None))
          else None)"

definition floatnumber :: "string \<Rightarrow> real option" where
  "floatnumber s =
     (case number s of
        None \<Rightarrow> None
      | Some (ip, fp, r) \<Rightarrow>
          (case exponent r of
             None \<Rightarrow> None
           | Some ex \<Rightarrow>
               Some (of_nat (nat_of_digits (ip @ fp)) * ipow 10 (ex - int (length fp)))))"

definition float_of_str :: "string \<Rightarrow> pyerror + pyfloat" where
  "float_of_str s =
     (case split_sign (strip s) of
        (neg, body) \<Rightarrow>
          if lower body = ''inf'' \<or> lower body = ''infinity'' then
            Inr (if neg then NegInf else PosInf)
          else if lower body = ''nan'' then Inr NaN
          else
            (case floatnumber body of
               None \<Rightarrow> Inl ValueError
             | Some q \<Rightarrow> Inr (round_double (if neg then - q else q))))"

section \<open>Safe Scalar Parser\<close>

text \<open>
  \<^verbatim>\<open>try: ... except (ValueError, TypeError): return None\<close>: the two named exceptions
  become \<open>None\<close>, any other exception leaves the function.
\<close>

definition except_value_type :: "pyerror + 'a \<Rightarrow> pyerror + 'a option" where
  "except_value_type m =
     (case m of
        Inl e \<Rightarrow> if e = ValueError \<or> e = TypeError then Inr None else Inl e
      | Inr v \<Rightarrow> Inr (Some v))"

definition safe_int :: "string option \<Rightarrow> pyerror + int option" where
  "safe_int v =
     (case v of
        None \<Rightarrow> Inr None
      | Some s \<Rightarrow>
          let value_stripped = strip s in
          if value_stripped = [] then Inr None
          else
            except_value_type
              (case float_of_str value_stripped of
                 Inl e \<Rightarrow> Inl e
               | Inr x \<Rightarrow> int_of_float x))"

definition safe_float :: "string option \<Rightarrow> pyerror + pyfloat option" where
  "safe_float v =
     (case v of
        None \<Rightarrow> Inr None
      | Some s \<Rightarrow>
          let value_stripped = strip s in
          if value_stripped = [] then Inr None
          else except_value_type (float_of_str value_stripped))"

section \<open>Rows and data frames\<close>

text \<open>
  A row is the dictionary with the keys \<^verbatim>\<open>timestamp\<close>, \<^verbatim>\<open>hr_bpm\<close>, \<^verbatim>\<open>power_w\<close>
  and \<^verbatim>\<open>speed_kmh\<close> that both extractors append to \<^verbatim>\<open>rows\<close>. The type
  parameter is the type of the timestamp: what the decoder delivered before
  \<^verbatim>\<open>pd.to_datetime\<close>, and nanoseconds since the epoch (UTC) after it, where \<open>None\<close> is
  \<^verbatim>\<open>NaT\<close>. A metric cell is missing when it is \<open>None\<close> or a NaN: pandas does not tell
  the two apart.
\<close>

record 'ts row =
  timestamp :: "'ts option"
  hr_bpm :: "pyfloat option"
  power_w :: "pyfloat option"
  speed_kmh :: "pyfloat option"

type_synonym dataframe = "int row list"

definition isna :: "pyfloat option \<Rightarrow> bool" where
  "isna c = (c = None \<or> c = Some NaN)"

text \<open>The columns of a frame built from such rows, and the numeric cell of a row.\<close>

definition columns :: "string list" where
  "columns = [''timestamp'', ''hr_bpm'', ''power_w'', ''speed_kmh'']"

definition cell :: "string \<Rightarrow> int row \<Rightarrow> pyfloat option" where
  "cell c r =
     (if c = ''hr_bpm'' then hr_bpm r
      else if c = ''power_w'' then power_w r
      else speed_kmh r)"

text \<open>\<open>isna_at c r\<close>: whether the cell of row \<open>r\<close> in the column \<open>c\<close> is missing.\<close>

definition isna_at :: "string \<Rightarrow> int row \<Rightarrow> bool" where
  "isna_at c r = (if c = ''timestamp'' then timestamp r = None else isna (cell c r))"

text \<open>
  \<^verbatim>\<open>df.dropna(subset=cols)\<close> on a frame with rows: a new frame without the rows that miss
  a value in one of the columns; \<open>KeyError\<close> for a column the frame does not have.
\<close>

definition dropna :: "string list \<Rightarrow> dataframe \<Rightarrow> pyerror + dataframe" where
  "dropna cols df =
     (if \<exists>c \<in> set cols. c \<notin> set columns then Inl KeyError
      else Inr (filter (\<lambda>r. \<forall>c \<in> set cols. \<not> isna_at c r) df))"

section \<open>Collaborators\<close>

text \<open>
  A decoded message of kind \<^verbatim>\<open>record\<close> is the list of its fields. The four fields the
  extractor reads by name carry a value or \<^verbatim>\<open>None\<close>: \<open>Timestamp\<close> is the field named
  \<^verbatim>\<open>timestamp\<close> and carries a date; \<open>HeartRate\<close>, \<open>Power\<close> and \<open>Speed\<close> are the
  fields named \<^verbatim>\<open>heart_rate\<close>, \<^verbatim>\<open>power\<close> and \<^verbatim>\<open>speed\<close> and carry a number, so
  that \<^verbatim>\<open>float(field.value)\<close> is the number itself. \<open>OtherField\<close> is a field of any
  other name, which the extractor passes over.
\<close>

datatype 'ts fit_field =
    Timestamp "'ts option"
  | HeartRate "pyfloat option"
  | Power "pyfloat option"
  | Speed "pyfloat option"
  | OtherField string

text \<open>
  A parsed XML element: the namespace map in scope (prefix to URI, the prefix \<open>None\<close> for
  the default namespace), the namespace URI and the local name of its tag, its text, and
  its child elements in document order.
\<close>

datatype element =
  Element (nsmap: "(string option \<times> string) list") (ns: string) (localname: string)
    (etext: "string option") (children: "element list")

type_synonym bytes = "8 word list"

text \<open>
  The libraries the pipeline calls, which are not part of it:
  \<^item> \<open>fit_records b\<close>: \<^verbatim>\<open>FitFile(io.BytesIO(b)).get_messages("record")\<close>, read to its
    end, or the exception the decoder raised on the way;
  \<^item> \<open>fromstring b\<close>: \<^verbatim>\<open>etree.fromstring(b)\<close>, the root element or the parser's exception;
  \<^item> \<open>to_datetime v\<close>: \<^verbatim>\<open>pd.to_datetime(v, utc=True, errors="coerce")\<close> on a decoded
    date, \<open>to_datetime_str\<close> the same on a text; \<open>None\<close> is \<^verbatim>\<open>NaT\<close>;
  \<^item> \<open>sort_values df\<close>: \<^verbatim>\<open>df.sort_values("timestamp")\<close>, called with the default
    \<^verbatim>\<open>kind\<close>.
\<close>

record 'ts libs =
  fit_records :: "bytes \<Rightarrow> pyerror + 'ts fit_field list list"
  fromstring :: "bytes \<Rightarrow> pyerror + element"
  to_datetime :: "'ts \<Rightarrow> int option"
  to_datetime_str :: "string \<Rightarrow> int option"
  sort_values :: "dataframe \<Rightarrow> dataframe"

text \<open>
  What pandas documents of \<^verbatim>\<open>sort_values\<close> with its default \<^verbatim>\<open>kind="quicksort"\<close>: on a
  frame without missing timestamps the result has the same rows, in non-decreasing order
  of the timestamp. The order of rows with equal timestamps is documented for
  \<^verbatim>\<open>kind="mergesort"\<close> and \<^verbatim>\<open>kind="stable"\<close> only.
\<close>

definition ts_key :: "int row \<Rightarrow> int" where
  "ts_key r = (case timestamp r of None \<Rightarrow> 0 | Some t \<Rightarrow> t)"

definition sorts_by_timestamp :: "(dataframe \<Rightarrow> dataframe) \<Rightarrow> bool" where
  "sorts_by_timestamp srt =
     (\<forall>df. (\<forall>r \<in> set df. timestamp r \<noteq> None) \<longrightarrow>
        mset (srt df) = mset df \<and> sorted (map ts_key (srt df)))"

section \<open>Binary Record Extractor\<close>

definition empty_row :: "'ts row" where
  "empty_row = \<lparr>timestamp = None, hr_bpm = None, power_w = None, speed_kmh = None\<rparr>"

text \<open>The literal \<^verbatim>\<open>3.6\<close>.\<close>

definition kmh_per_ms :: pyfloat where
  "kmh_per_ms = round_double (18 / 5)"

text \<open>The loop \<^verbatim>\<open>for field in record\<close>, from the row built so far.\<close>

fun fit_row :: "'ts fit_field list \<Rightarrow> 'ts row \<Rightarrow> 'ts row" where
  "fit_row [] row = row"
| "fit_row (Timestamp v # rest) row = fit_row rest (row\<lparr>timestamp := v\<rparr>)"
| "fit_row (HeartRate v # rest) row = fit_row rest (row\<lparr>hr_bpm := v\<rparr>)"
| "fit_row (Power v # rest) row = fit_row rest (row\<lparr>power_w := v\<rparr>)"
| "fit_row (Speed None # rest) row = fit_row rest row"
| "fit_row (Speed (Some v) # rest) row =
     fit_row rest (row\<lparr>speed_kmh := Some (float_mul v kmh_per_ms)\<rparr>)"
| "fit_row (OtherField _ # rest) row = fit_row rest row"

text \<open>The loop over the messages: a row without a timestamp is not appended.\<close>

fun fit_rows :: "'ts fit_field list list \<Rightarrow> 'ts row list" where
  "fit_rows [] = []"
| "fit_rows (msg # msgs) =
     (let row = fit_row msg empty_row
      in if timestamp row \<noteq> None then row # fit_rows msgs else fit_rows msgs)"

text \<open>\<^verbatim>\<open>df["timestamp"] = pd.to_datetime(df["timestamp"], utc=True, errors="coerce")\<close>\<close>

definition to_utc :: "('ts \<Rightarrow> int option) \<Rightarrow> 'ts row \<Rightarrow> int row" where
  "to_utc conv r =
     \<lparr>timestamp = (case timestamp r of None \<Rightarrow> None | Some v \<Rightarrow> conv v),
      hr_bpm = hr_bpm r, power_w = power_w r, speed_kmh = speed_kmh r\<rparr>"

text \<open>\<^verbatim>\<open>df.dropna(subset=["timestamp"]).sort_values("timestamp")\<close>\<close>

definition dropna_sort :: "'ts libs \<Rightarrow> dataframe \<Rightarrow> pyerror + dataframe" where
  "dropna_sort L df =
     (case dropna [''timestamp''] df of
        Inl e \<Rightarrow> Inl e
      | Inr df' \<Rightarrow> Inr (sort_values L df'))"

definition parse_fit_bytes :: "'ts libs \<Rightarrow> bytes \<Rightarrow> pyerror + dataframe" where
  "parse_fit_bytes L file_bytes =
     (case fit_records L file_bytes of
        Inl e \<Rightarrow> Inl e
      | Inr msgs \<Rightarrow>
          let rows = fit_rows msgs in
          if rows = [] then Inr []
          else dropna_sort L (map (to_utc (to_datetime L)) rows))"

section \<open>XML Trackpoint Extractor\<close>

text \<open>\<^verbatim>\<open>normalize_tcx_nsmap\<close>: the loop over \<^verbatim>\<open>raw_nsmap.items()\<close>, then the fallback.\<close>

fun nsmap_items :: "(string option \<times> string) list \<Rightarrow> (string \<rightharpoonup> string) \<Rightarrow> (string \<rightharpoonup> string)" where
  "nsmap_items [] normalized_nsmap = normalized_nsmap"
| "nsmap_items ((key, val) # items) normalized_nsmap =
     nsmap_items items
       (if val = [] then normalized_nsmap
        else (case key of
                None \<Rightarrow> normalized_nsmap(''tcx'' \<mapsto> val)
              | Some k \<Rightarrow> normalized_nsmap(k \<mapsto> val)))"

definition normalize_tcx_nsmap :: "element \<Rightarrow> (string \<rightharpoonup> string)" where
  "normalize_tcx_nsmap root_elem =
     (let normalized_nsmap = nsmap_items (nsmap root_elem) Map.empty
      in if normalized_nsmap ''tcx'' = None then
           normalized_nsmap
             (''tcx'' \<mapsto> ''http://www.garmin.com/xmlschemas/TrainingCenterDatabase/v2'')
         else normalized_nsmap)"

text \<open>
  The path queries the extractor issues: \<^verbatim>\<open>//p:name\<close> (every element of the document
  with that name) and \<^verbatim>\<open>./p:a/p:b/...\<close> (children of the node, step by step). A step
  names its elements by a prefix, looked up in the namespace map given with the query,
  and a local name; a prefix the map does not bind is an error.
\<close>

datatype xpath_expr = Descendants string string | ChildPath "(string \<times> string) list"

definition name_test :: "(string \<rightharpoonup> string) \<Rightarrow> string \<times> string \<Rightarrow> pyerror + (element \<Rightarrow> bool)" where
  "name_test namespaces step =
     (case namespaces (fst step) of
        None \<Rightarrow> Inl XPathEvalError
      | Some uri \<Rightarrow> Inr (\<lambda>e. ns e = uri \<and> localname e = snd step))"

fun descendants_or_self :: "element \<Rightarrow> element list" where
  "descendants_or_self (Element m u l t cs) =
     Element m u l t cs # concat (map descendants_or_self cs)"

fun child_path :: "(string \<rightharpoonup> string) \<Rightarrow> (string \<times> string) list \<Rightarrow> element list \<Rightarrow> pyerror + element list" where
  "child_path namespaces [] nodes = Inr nodes"
| "child_path namespaces (step # steps) nodes =
     (case name_test namespaces step of
        Inl e \<Rightarrow> Inl e
      | Inr p \<Rightarrow> child_path namespaces steps (filter p (concat (map children nodes))))"

definition xpath :: "element \<Rightarrow> xpath_expr \<Rightarrow> (string \<rightharpoonup> string) \<Rightarrow> pyerror + element list" where
  "xpath node expr namespaces =
     (case expr of
        Descendants prefix local \<Rightarrow>
          (case name_test namespaces (prefix, local) of
             Inl e \<Rightarrow> Inl e
           | Inr p \<Rightarrow> Inr (filter p (descendants_or_self node)))
      | ChildPath steps \<Rightarrow> child_path namespaces steps [node])"

text \<open>
  \<^verbatim>\<open>get_first_xpath_text\<close>. The queries above select elements, so the first item found
  is an element and its text is returned.
\<close>

definition get_first_xpath_text :: "element \<Rightarrow> xpath_expr \<Rightarrow> (string \<rightharpoonup> string) \<Rightarrow> pyerror + string option" where
  "get_first_xpath_text node xpath_expr namespaces =
     (case xpath node xpath_expr namespaces of
        Inl e \<Rightarrow> Inl e
      | Inr found \<Rightarrow>
          (case found of
             [] \<Rightarrow> Inr None
           | first_item # _ \<Rightarrow> Inr (etext first_item)))"

text \<open>
  \<^verbatim>\<open>float(i)\<close> for the integer \<open>i\<close> that \<^verbatim>\<open>safe_int\<close> returned, as the data frame and
  the projection hold it.
\<close>

definition float_of_int :: "int \<Rightarrow> pyfloat" where
  "float_of_int i = round_double (of_int i)"

text \<open>The loop \<^verbatim>\<open>for trackpoint in trackpoints\<close>.\<close>

fun tcx_rows :: "'ts libs \<Rightarrow> (string \<rightharpoonup> string) \<Rightarrow> element list \<Rightarrow> pyerror + dataframe" where
  "tcx_rows L namespaces [] = Inr []"
| "tcx_rows L namespaces (trackpoint # trackpoints) =
     (case get_first_xpath_text trackpoint (ChildPath [(''tcx'', ''Time'')]) namespaces of
        Inl e \<Rightarrow> Inl e
      | Inr None \<Rightarrow> tcx_rows L namespaces trackpoints
      | Inr (Some time_text) \<Rightarrow>
          if time_text = [] then tcx_rows L namespaces trackpoints
          else
            (case to_datetime_str L time_text of
               None \<Rightarrow> tcx_rows L namespaces trackpoints
             | Some ts \<Rightarrow>
                 (case get_first_xpath_text trackpoint
                         (ChildPath [(''tcx'', ''HeartRateBpm''), (''tcx'', ''Value'')]) namespaces of
                    Inl e \<Rightarrow> Inl e
                  | Inr hr_text \<Rightarrow>
                      (case safe_int hr_text of
                         Inl e \<Rightarrow> Inl e
                       | Inr hr \<Rightarrow>
                           (case tcx_rows L namespaces trackpoints of
                              Inl e \<Rightarrow> Inl e
                            | Inr rows \<Rightarrow>
                                Inr (\<lparr>timestamp = Some ts, hr_bpm = map_option float_of_int hr,
                                      power_w = None, speed_kmh = None\<rparr> # rows))))))"

definition parse_tcx_bytes :: "'ts libs \<Rightarrow> bytes \<Rightarrow> pyerror + dataframe" where
  "parse_tcx_bytes L file_bytes =
     (case fromstring L file_bytes of
        Inl e \<Rightarrow> Inl e
      | Inr root_elem \<Rightarrow>
          let namespaces = normalize_tcx_nsmap root_elem in
          (case xpath root_elem (Descendants ''tcx'' ''Trackpoint'') namespaces of
             Inl e \<Rightarrow> Inl e
           | Inr trackpoints \<Rightarrow>
               (case tcx_rows L namespaces trackpoints of
                  Inl e \<Rightarrow> Inl e
                | Inr rows \<Rightarrow> if rows = [] then Inr [] else dropna_sort L rows)))"

section \<open>Format Sniffer\<close>

definition extract_dataframe_from_file :: "'ts libs \<Rightarrow> string \<Rightarrow> bytes \<Rightarrow> pyerror + dataframe" where
  "extract_dataframe_from_file L filename file_bytes =
     (let lowered_name = lower filename
      in if endswith lowered_name ''.fit'' then parse_fit_bytes L file_bytes
         else if endswith lowered_name ''.tcx'' then parse_tcx_bytes L file_bytes
         else Inr [])"

section \<open>Series Projector\<close>

record apex_series =
  name :: string
  data :: "(int \<times> pyfloat) list"

text \<open>
  \<^verbatim>\<open>df_metric["timestamp"].astype("int64") // 1_000_000\<close>: nanoseconds to milliseconds,
  rounding down. A missing timestamp is stored as the least 64-bit integer (such rows do
  not reach this point).
\<close>

definition timestamp_ms :: "int row \<Rightarrow> int" where
  "timestamp_ms r =
     (case timestamp r of
        None \<Rightarrow> (- 9223372036854775808) div 1000000
      | Some t \<Rightarrow> t div 1000000)"

text \<open>The loop over \<^verbatim>\<open>zip(timestamp_ms, values)\<close>; \<^verbatim>\<open>float\<close> of a float is itself.\<close>

fun points :: "(int \<times> pyfloat option) list \<Rightarrow> (int \<times> pyfloat) list" where
  "points [] = []"
| "points ((ts_value, None) # rest) = points rest"
| "points ((ts_value, Some metric_value) # rest) = (ts_value, metric_value) # points rest"

definition dataframe_to_apex_series :: "dataframe \<Rightarrow> string \<Rightarrow> string \<Rightarrow> pyerror + apex_series" where
  "dataframe_to_apex_series df_data value_column series_name =
     (if df_data = [] then Inr \<lparr>name = series_name, data = []\<rparr>
      else
        (case dropna [''timestamp'', value_column] df_data of
           Inl e \<Rightarrow> Inl e
         | Inr df_metric \<Rightarrow>
             if df_metric = [] then Inr \<lparr>name = series_name, data = []\<rparr>
             else if value_column = ''timestamp'' then Inl TypeError
             else
               Inr \<lparr>name = series_name,
                    data = points (zip (map timestamp_ms df_metric)
                                       (map (cell value_column) df_metric))\<rparr>))"

section \<open>Batch Aggregator\<close>

definition SUPPORTED_METRICS :: "string list" where
  "SUPPORTED_METRICS = [''hr_bpm'', ''speed_kmh'', ''power_w'']"

definition init_series_response :: "string \<rightharpoonup> apex_series list" where
  "init_series_response = fold (\<lambda>metric d. d(metric \<mapsto> [])) SUPPORTED_METRICS Map.empty"

record upload =
  filename :: "string option"
  content :: bytes

text \<open>The loop \<^verbatim>\<open>for metric in SUPPORTED_METRICS\<close> for one file.\<close>

fun append_series :: "dataframe \<Rightarrow> string \<Rightarrow> string list \<Rightarrow> (string \<rightharpoonup> apex_series list) \<Rightarrow> pyerror + (string \<rightharpoonup> apex_series list)" where
  "append_series df_data fname [] series_by_metric = Inr series_by_metric"
| "append_series df_data fname (metric # metrics) series_by_metric =
     (case dataframe_to_apex_series df_data metric fname of
        Inl e \<Rightarrow> Inl e
      | Inr s \<Rightarrow>
          if data s \<noteq> [] then
            (case series_by_metric metric of
               None \<Rightarrow> Inl KeyError
             | Some l \<Rightarrow>
                 append_series df_data fname metrics (series_by_metric(metric \<mapsto> l @ [s])))
          else append_series df_data fname metrics series_by_metric)"

text \<open>The loop \<^verbatim>\<open>for uploaded_file in files\<close>.\<close>

fun parse_files :: "'ts libs \<Rightarrow> upload list \<Rightarrow> (string \<rightharpoonup> apex_series list) \<Rightarrow> pyerror + (string \<rightharpoonup> apex_series list)" where
  "parse_files L [] series_by_metric = Inr series_by_metric"
| "parse_files L (uploaded_file # files) series_by_metric =
     (let fname = (case filename uploaded_file of
                     None \<Rightarrow> ''file''
                   | Some n \<Rightarrow> if n = [] then ''file'' else n)
      in case extract_dataframe_from_file L fname (content uploaded_file) of
           Inl e \<Rightarrow> Inl e
         | Inr df_data \<Rightarrow>
             if df_data = [] then parse_files L files series_by_metric
             else
               (case append_series df_data fname SUPPORTED_METRICS series_by_metric of
                  Inl e \<Rightarrow> Inl e
                | Inr series_by_metric' \<Rightarrow> parse_files L files series_by_metric'))"

record response =
  series :: "string \<rightharpoonup> apex_series list"

definition parse_activity_files :: "'ts libs \<Rightarrow> upload list \<Rightarrow> pyerror + response" where
  "parse_activity_files L files =
     (case parse_files L files init_series_response of
        Inl e \<Rightarrow> Inl e
      | Inr series_by_metric \<Rightarrow> Inr \<lparr>series = series_by_metric\<rparr>)"

section \<open>Reference notions for the properties\<close>

text \<open>
  The rows of a file before \<^verbatim>\<open>sort_values\<close>, in extraction order: those with a usable
  timestamp. Empty when the decoder or the parser raised.
\<close>

definition fit_extracted :: "'ts libs \<Rightarrow> bytes \<Rightarrow> dataframe" where
  "fit_extracted L file_bytes =
     (case fit_records L file_bytes of
        Inl e \<Rightarrow> []
      | Inr msgs \<Rightarrow>
          filter (\<lambda>r. timestamp r \<noteq> None) (map (to_utc (to_datetime L)) (fit_rows msgs)))"

definition trackpoints_of :: "element \<Rightarrow> element list" where
  "trackpoints_of root_elem =
     (case xpath root_elem (Descendants ''tcx'' ''Trackpoint'') (normalize_tcx_nsmap root_elem) of
        Inl e \<Rightarrow> []
      | Inr trackpoints \<Rightarrow> trackpoints)"

definition tcx_extracted :: "'ts libs \<Rightarrow> bytes \<Rightarrow> dataframe" where
  "tcx_extracted L file_bytes =
     (case fromstring L file_bytes of
        Inl e \<Rightarrow> []
      | Inr root_elem \<Rightarrow>
          (case tcx_rows L (normalize_tcx_nsmap root_elem) (trackpoints_of root_elem) of
             Inl e \<Rightarrow> []
           | Inr rows \<Rightarrow> rows))"

text \<open>
  The raw speed of a message: the value of its \<^verbatim>\<open>speed\<close> field when it has one with a
  value (the last such field, should a message carry several).
\<close>

fun raw_speed :: "'ts fit_field list \<Rightarrow> pyfloat option" where
  "raw_speed [] = None"
| "raw_speed (Speed (Some v) # rest) = (case raw_speed rest of None \<Rightarrow> Some v | Some w \<Rightarrow> Some w)"
| "raw_speed (_ # rest) = raw_speed rest"

text \<open>
  The projection as the specification words it: one point
  \<open>(timestamp in milliseconds, value)\<close> for each row on which both the timestamp and the
  metric are present, in row order.
\<close>

definition present :: "string \<Rightarrow> int row \<Rightarrow> bool" where
  "present c r = (timestamp r \<noteq> None \<and> \<not> isna (cell c r))"

definition spec_point :: "string \<Rightarrow> int row \<Rightarrow> int \<times> pyfloat" where
  "spec_point c r = (the (timestamp r) div 1000000, the (cell c r))"

definition spec_projection :: "dataframe \<Rightarrow> string \<Rightarrow> (int \<times> pyfloat) list" where
  "spec_projection df c = map (spec_point c) (filter (present c) df)"

text \<open>
  What one file adds to the collection of a metric: its series when the file has rows and
  the series has points, nothing otherwise.
\<close>

definition upload_name :: "upload \<Rightarrow> string" where
  "upload_name f = (case filename f of None \<Rightarrow> ''file'' | Some n \<Rightarrow> if n = [] then ''file'' else n)"

definition file_series :: "'ts libs \<Rightarrow> string \<Rightarrow> upload \<Rightarrow> apex_series list" where
  "file_series L metric f =
     (case extract_dataframe_from_file L (upload_name f) (content f) of
        Inl e \<Rightarrow> []
      | Inr df \<Rightarrow>
          if df = [] then []
          else
            (case dataframe_to_apex_series df metric (upload_name f) of
               Inl e \<Rightarrow> []
             | Inr s \<Rightarrow> if data s \<noteq> [] then [s] else []))"


section \<open>Sample collaborators and inputs\<close>

text \<open>Two sorts that meet the contract: one keeps the order of ties, one reverses it.\<close>

definition stable_sort :: "dataframe \<Rightarrow> dataframe" where
  "stable_sort df = sort_key ts_key df"


text \<open>Decoded dates as seconds since the epoch; two texts with a known instant.\<close>

definition seconds_to_ns :: "int \<Rightarrow> int option" where
  "seconds_to_ns s = Some (s * 1000000000)"

definition text_to_ns :: "string \<Rightarrow> int option" where
  "text_to_ns s =
     (if s = ''2024-01-01T00:00:00Z'' then Some 1704067200000000000
      else if s = ''2024-01-01T00:00:01Z'' then Some 1704067201000000000
      else None)"

definition sample_msgs :: "int fit_field list list" where
  "sample_msgs =
     [[Timestamp (Some 1704067201), HeartRate (Some (Finite 152)), Power (Some (Finite 200))],
      [Speed (Some (Finite 3)), HeartRate (Some (Finite 151))],
      [Timestamp (Some 1704067200), HeartRate (Some (Finite 150)), Power None,
       Speed (Some (Finite 5)), OtherField ''cadence'']]"

definition tied_msgs :: "int fit_field list list" where
  "tied_msgs =
     [[Timestamp (Some 1704067200), HeartRate (Some (Finite 150))],
      [Timestamp (Some 1704067200), HeartRate (Some (Finite 160))]]"

definition tcx_ns :: string where
  "tcx_ns = ''http://www.garmin.com/xmlschemas/TrainingCenterDatabase/v2''"

definition leaf :: "string \<Rightarrow> string \<Rightarrow> element" where
  "leaf l t = Element [] tcx_ns l (Some t) []"

definition sample_doc :: element where
  "sample_doc =
     Element [(None, tcx_ns)] tcx_ns ''TrainingCenterDatabase'' None
       [Element [] tcx_ns ''Track'' None
          [Element [] tcx_ns ''Trackpoint'' None
             [leaf ''Time'' ''2024-01-01T00:00:01Z''],
           Element [] tcx_ns ''Trackpoint'' None
             [Element [] tcx_ns ''HeartRateBpm'' None [leaf ''Value'' ''141'']],
           Element [] tcx_ns ''Trackpoint'' None
             [leaf ''Time'' ''2024-01-01T00:00:00Z'',
              Element [] tcx_ns ''HeartRateBpm'' None [leaf ''Value'' ''140'']]]]"

definition empty_doc :: element where
  "empty_doc = Element [(None, tcx_ns)] tcx_ns ''TrainingCenterDatabase'' None []"

text \<open>
  A decoder and a parser that raise on the empty payload; the payload \<open>[1]\<close> stands for a
  file with the sample content, \<open>[2]\<close> for a binary file with two records of one
  timestamp, any other for a well-formed file without records or trackpoints.
\<close>

definition sample_fit_records :: "bytes \<Rightarrow> pyerror + int fit_field list list" where
  "sample_fit_records b =
     (if b = [] then Inl FitParseError
      else if b = [1] then Inr sample_msgs
      else if b = [2] then Inr tied_msgs
      else Inr [])"

definition sample_fromstring :: "bytes \<Rightarrow> pyerror + element" where
  "sample_fromstring b =
     (if b = [] then Inl XMLSyntaxError
      else if b = [1] then Inr sample_doc
      else Inr empty_doc)"

definition sample_libs :: "int libs" where
  "sample_libs =
     \<lparr>fit_records = sample_fit_records, fromstring = sample_fromstring,
      to_datetime = seconds_to_ns, to_datetime_str = text_to_ns,
      sort_values = stable_sort\<rparr>"


definition sample_row :: "int \<Rightarrow> real option \<Rightarrow> real option \<Rightarrow> real option \<Rightarrow> int row" where
  "sample_row t h p s =
     \<lparr>timestamp = Some t, hr_bpm = map_option Finite h, power_w = map_option Finite p,
      speed_kmh = map_option Finite s\<rparr>"

text \<open>A batch of three uploads: a binary file, an unsupported file and an XML file.\<close>

definition sample_batch :: "upload list" where
  "sample_batch =
     [\<lparr>filename = Some ''a.FIT'', content = [1]\<rparr>,
      \<lparr>filename = Some ''ride.gpx'', content = [1]\<rparr>,
      \<lparr>filename = Some ''b.tcx'', content = [1]\<rparr>]"


section \<open>Evaluation rules\<close>

lemmas float_eval = round_double_def round_magnitude_def ulp_def quantize_def
  round_half_even_def ipow_def trunc_def

lemmas str_eval = float_of_str_def strip_def is_space_def split_sign_def lower_def
  lower_char_def floatnumber_def number_def digitpart_def is_digit_def digit_val_def
  exponent_def nat_of_digits_def

section \<open>The Safe Scalar Parser\<close>

text \<open>\<^verbatim>\<open>float\<close> of a text raises nothing but \<open>ValueError\<close>.\<close>

lemma float_of_str_error: "float_of_str s = Inl e \<Longrightarrow> e = ValueError"
  by (auto simp: float_of_str_def split: prod.splits if_splits option.splits)

text \<open>\<^verbatim>\<open>safe_float\<close> returns on every input.\<close>

lemma safe_float_returns: "\<exists>r. safe_float v = Inr r"
proof (cases v)
  case None
  then show ?thesis by (simp add: safe_float_def)
next
  case (Some s)
  show ?thesis
  proof (cases "float_of_str (strip s)")
    case (Inl e)
    then have "e = ValueError" by (rule float_of_str_error)
    with Inl Some show ?thesis by (simp add: safe_float_def except_value_type_def Let_def)
  next
    case (Inr x)
    with Some show ?thesis by (simp add: safe_float_def except_value_type_def Let_def)
  qed
qed

text \<open>Absent, empty and whitespace-only input is absent; so is a malformed token.\<close>

lemma safe_int_blank:
  "safe_int None = Inr None" "strip s = [] \<Longrightarrow> safe_int (Some s) = Inr None"
  by (simp_all add: safe_int_def)

lemma safe_int_malformed:
  "float_of_str (strip s) = Inl e \<Longrightarrow> safe_int (Some s) = Inr None"
  by (frule float_of_str_error) (simp add: safe_int_def except_value_type_def Let_def)

text \<open>A decimal representation is parsed as a number and truncated.\<close>

lemma safe_int_finite:
  "strip s \<noteq> [] \<Longrightarrow> float_of_str (strip s) = Inr (Finite q) \<Longrightarrow>
   safe_int (Some s) = Inr (Some (trunc q))"
  by (simp add: safe_int_def except_value_type_def Let_def)

lemma safe_int_decimal: "safe_int (Some ''140.7'') = Inr (Some 140)"
  by (simp add: safe_int_def except_value_type_def str_eval float_eval)

text \<open>
  \<^verbatim>\<open>safe_int\<close> raises exactly when the text denotes an infinity: \<^verbatim>\<open>int\<close> of an
  infinite float raises \<open>OverflowError\<close>, which the \<^verbatim>\<open>except\<close> clause does not name.
\<close>

lemma safe_int_raises:
  "safe_int v = Inl e \<longleftrightarrow>
     e = OverflowError \<and>
     (\<exists>s. v = Some s \<and> strip s \<noteq> [] \<and>
        (float_of_str (strip s) = Inr PosInf \<or> float_of_str (strip s) = Inr NegInf))"
proof (cases v)
  case None
  then show ?thesis by (simp add: safe_int_def)
next
  case (Some s)
  show ?thesis
  proof (cases "float_of_str (strip s)")
    case (Inl e')
    then have "e' = ValueError" by (rule float_of_str_error)
    with Inl Some show ?thesis by (simp add: safe_int_def except_value_type_def Let_def)
  next
    case (Inr x)
    with Some show ?thesis
      by (cases x) (auto simp: safe_int_def except_value_type_def Let_def)
  qed
qed

text \<open>
  Claim C2. The Safe Scalar Parser is to return on every input without raising. On the
  texts \<^verbatim>\<open>"inf"\<close> and \<^verbatim>\<open>" -Infinity "\<close>, which \<^verbatim>\<open>float\<close> accepts, \<^verbatim>\<open>safe_int\<close> does not
  return: \<^verbatim>\<open>int(float("inf"))\<close> raises \<open>OverflowError\<close>, and the handler catches only
  \<open>ValueError\<close> and \<open>TypeError\<close>.
\<close>

theorem safe_int_inf_raises:
  "safe_int (Some ''inf'') = Inl OverflowError \<and>
   safe_int (Some '' -Infinity '') = Inl OverflowError"
  by (simp add: safe_int_def except_value_type_def str_eval)

section \<open>Data frames and sorting\<close>

lemma dropna_timestamp:
  "dropna [''timestamp''] df = Inr (filter (\<lambda>r. timestamp r \<noteq> None) df)"
  by (simp add: dropna_def isna_at_def columns_def)

lemma supported_cases:
  "c \<in> set SUPPORTED_METRICS \<longleftrightarrow> c = ''hr_bpm'' \<or> c = ''speed_kmh'' \<or> c = ''power_w''"
  by (auto simp: SUPPORTED_METRICS_def)

lemma dropna_metric:
  assumes "c \<in> set SUPPORTED_METRICS"
  shows "dropna [''timestamp'', c] df = Inr (filter (present c) df)"
proof -
  have "c \<in> set columns" and "c \<noteq> ''timestamp''"
    using assms by (auto simp: supported_cases columns_def)
  then show ?thesis
    by (simp add: dropna_def isna_at_def present_def [abs_def] columns_def)
qed

lemma sorts_by_timestamp_stable_sort: "sorts_by_timestamp stable_sort"
  by (simp add: sorts_by_timestamp_def stable_sort_def)


lemma dropna_sort_returns:
  "dropna_sort L df = Inr (sort_values L (filter (\<lambda>r. timestamp r \<noteq> None) df))"
  by (simp add: dropna_sort_def dropna_timestamp)

lemma dropna_sort_sorted:
  assumes "sorts_by_timestamp (sort_values L)" and "dropna_sort L df = Inr df'"
  shows "mset df' = mset (filter (\<lambda>r. timestamp r \<noteq> None) df)"
    and "sorted (map ts_key df')"
proof -
  let ?valid = "filter (\<lambda>r. timestamp r \<noteq> None) df"
  have df': "df' = sort_values L ?valid"
    using assms(2) by (simp add: dropna_sort_returns)
  have "\<forall>r \<in> set ?valid. timestamp r \<noteq> None" by simp
  with assms(1) have "mset (sort_values L ?valid) = mset ?valid \<and>
      sorted (map ts_key (sort_values L ?valid))"
    unfolding sorts_by_timestamp_def by blast
  with df' show "mset df' = mset ?valid" and "sorted (map ts_key df')" by simp_all
qed

lemma fit_rows_timestamp: "r \<in> set (fit_rows msgs) \<Longrightarrow> timestamp r \<noteq> None"
  by (induction msgs) (auto simp: Let_def split: if_splits)

lemma parse_fit_bytes_extracted:
  assumes "sorts_by_timestamp (sort_values L)" and "parse_fit_bytes L b = Inr df"
  shows "mset df = mset (fit_extracted L b)" and "sorted (map ts_key df)"
proof -
  from assms(2) obtain msgs where msgs: "fit_records L b = Inr msgs"
    by (cases "fit_records L b") (auto simp: parse_fit_bytes_def)
  show "mset df = mset (fit_extracted L b)"
  proof (cases "fit_rows msgs = []")
    case True
    with assms(2) msgs show ?thesis
      by (simp add: parse_fit_bytes_def fit_extracted_def)
  next
    case False
    with assms(2) msgs have "dropna_sort L (map (to_utc (to_datetime L)) (fit_rows msgs)) = Inr df"
      by (simp add: parse_fit_bytes_def)
    from dropna_sort_sorted(1) [OF assms(1) this] msgs show ?thesis
      by (simp add: fit_extracted_def)
  qed
  show "sorted (map ts_key df)"
  proof (cases "fit_rows msgs = []")
    case True
    with assms(2) msgs show ?thesis by (auto simp: parse_fit_bytes_def)
  next
    case False
    with assms(2) msgs have "dropna_sort L (map (to_utc (to_datetime L)) (fit_rows msgs)) = Inr df"
      by (simp add: parse_fit_bytes_def)
    from dropna_sort_sorted(2) [OF assms(1) this] show ?thesis .
  qed
qed

section \<open>Path queries with the normalised namespace map\<close>

lemma nsmap_items_tcx: "m ''tcx'' \<noteq> None \<Longrightarrow> nsmap_items items m ''tcx'' \<noteq> None"
  by (induction items arbitrary: m) (auto split: option.splits)

lemma normalize_tcx_nsmap_tcx: "normalize_tcx_nsmap e ''tcx'' \<noteq> None"
  by (simp add: normalize_tcx_nsmap_def Let_def)

lemma name_test_tcx:
  "namespaces ''tcx'' = Some uri \<Longrightarrow>
   name_test namespaces (''tcx'', l) = Inr (\<lambda>e. ns e = uri \<and> localname e = l)"
  by (simp add: name_test_def)

lemma get_first_xpath_text_tcx1:
  "namespaces ''tcx'' \<noteq> None \<Longrightarrow>
   \<exists>t. get_first_xpath_text node (ChildPath [(''tcx'', a)]) namespaces = Inr t"
  by (auto simp: get_first_xpath_text_def xpath_def name_test_tcx split: list.splits)

lemma get_first_xpath_text_tcx2:
  "namespaces ''tcx'' \<noteq> None \<Longrightarrow>
   \<exists>t. get_first_xpath_text node (ChildPath [(''tcx'', a), (''tcx'', b)]) namespaces = Inr t"
  by (auto simp: get_first_xpath_text_def xpath_def name_test_tcx split: list.splits)

lemma xpath_trackpoints:
  "xpath e (Descendants ''tcx'' ''Trackpoint'') (normalize_tcx_nsmap e) = Inr (trackpoints_of e)"
proof -
  obtain uri where "normalize_tcx_nsmap e ''tcx'' = Some uri"
    using normalize_tcx_nsmap_tcx [of e] by auto
  then show ?thesis
    by (simp add: trackpoints_of_def xpath_def name_test_tcx)
qed

section \<open>Rows of the XML extractor\<close>

lemma tcx_rows_row:
  "tcx_rows L namespaces tps = Inr rows \<Longrightarrow> r \<in> set rows \<Longrightarrow>
   timestamp r \<noteq> None \<and> power_w r = None \<and> speed_kmh r = None \<and>
   (\<exists>tp \<in> set tps. \<exists>hr_text hr.
      get_first_xpath_text tp (ChildPath [(''tcx'', ''HeartRateBpm''), (''tcx'', ''Value'')])
        namespaces = Inr hr_text \<and>
      safe_int hr_text = Inr hr \<and> hr_bpm r = map_option float_of_int hr)"
proof (induction tps arbitrary: rows)
  case Nil
  then show ?case by simp
next
  case (Cons tp tps)
  then show ?case
    by (auto split: sum.splits option.splits if_splits)
qed

lemma parse_tcx_bytes_extracted:
  assumes "sorts_by_timestamp (sort_values L)" and "parse_tcx_bytes L b = Inr df"
  shows "mset df = mset (tcx_extracted L b)" and "sorted (map ts_key df)"
proof -
  from assms(2) obtain e where e: "fromstring L b = Inr e"
    by (cases "fromstring L b") (auto simp: parse_tcx_bytes_def)
  from assms(2) e obtain rows
    where rows: "tcx_rows L (normalize_tcx_nsmap e) (trackpoints_of e) = Inr rows"
    by (cases "tcx_rows L (normalize_tcx_nsmap e) (trackpoints_of e)")
      (auto simp: parse_tcx_bytes_def xpath_trackpoints)
  have ext: "tcx_extracted L b = rows"
    using e rows by (simp add: tcx_extracted_def)
  have valid: "filter (\<lambda>r. timestamp r \<noteq> None) rows = rows"
    using tcx_rows_row [OF rows] by (simp add: filter_id_conv)
  show "mset df = mset (tcx_extracted L b)"
  proof (cases "rows = []")
    case True
    with assms(2) e rows ext show ?thesis
      by (simp add: parse_tcx_bytes_def xpath_trackpoints)
  next
    case False
    with assms(2) e rows have "dropna_sort L rows = Inr df"
      by (simp add: parse_tcx_bytes_def xpath_trackpoints)
    from dropna_sort_sorted(1) [OF assms(1) this]
    have "mset df = mset (filter (\<lambda>r. timestamp r \<noteq> None) rows)" .
    then show ?thesis by (simp only: valid ext)
  qed
  show "sorted (map ts_key df)"
  proof (cases "rows = []")
    case True
    with assms(2) e rows show ?thesis
      by (auto simp: parse_tcx_bytes_def xpath_trackpoints)
  next
    case False
    with assms(2) e rows have "dropna_sort L rows = Inr df"
      by (simp add: parse_tcx_bytes_def xpath_trackpoints)
    from dropna_sort_sorted(2) [OF assms(1) this] show ?thesis .
  qed
qed

section \<open>The sample inputs, evaluated\<close>

lemma kmh_per_ms_value: "kmh_per_ms = Finite (8106479329266893 / 2 ^ 51)"
  by (simp add: kmh_per_ms_def float_eval)

lemma sample_speed: "float_mul (Finite 5) kmh_per_ms = Finite 18"
  by (simp add: kmh_per_ms_value float_eval)

lemma sample_fit_rows:
  "fit_rows sample_msgs =
     [\<lparr>timestamp = Some 1704067201, hr_bpm = Some (Finite 152),
       power_w = Some (Finite 200), speed_kmh = None\<rparr>,
      \<lparr>timestamp = Some 1704067200, hr_bpm = Some (Finite 150),
       power_w = None, speed_kmh = Some (Finite 18)\<rparr>]"
  by (simp add: sample_msgs_def empty_row_def sample_speed)

lemma sample_fit_dataset:
  "parse_fit_bytes sample_libs [1] =
     Inr [sample_row 1704067200000000000 (Some 150) None (Some 18),
          sample_row 1704067201000000000 (Some 152) (Some 200) None]"
  by (simp add: parse_fit_bytes_def dropna_sort_returns sample_fit_rows to_utc_def
      sample_libs_def sample_fit_records_def seconds_to_ns_def stable_sort_def
      sample_row_def ts_key_def)




section \<open>Ordering of a dataset\<close>

lemma tcx_extracted_row:
  assumes "r \<in> set (tcx_extracted L b)"
  shows "timestamp r \<noteq> None \<and> power_w r = None \<and> speed_kmh r = None"
proof (cases "fromstring L b")
  case (Inl e)
  with assms show ?thesis by (simp add: tcx_extracted_def)
next
  case (Inr e)
  show ?thesis
  proof (cases "tcx_rows L (normalize_tcx_nsmap e) (trackpoints_of e)")
    case (Inl err)
    with Inr assms show ?thesis by (simp add: tcx_extracted_def)
  next
    case rows: (Inr rows)
    with Inr assms have "r \<in> set rows" by (simp add: tcx_extracted_def)
    with tcx_rows_row [OF rows] show ?thesis by blast
  qed
qed




section \<open>Speed conversion of the binary extractor\<close>

lemma fit_row_speed:
  "speed_kmh (fit_row msg row) =
     (case raw_speed msg of
        None \<Rightarrow> speed_kmh row
      | Some v \<Rightarrow> Some (float_mul v kmh_per_ms))"
  by (induction msg row rule: fit_row.induct) (auto split: option.splits)

lemma fit_rows_filter:
  "fit_rows msgs =
     filter (\<lambda>r. timestamp r \<noteq> None) (map (\<lambda>msg. fit_row msg empty_row) msgs)"
  by (induction msgs) (simp_all add: Let_def)

lemma fit_extracted_row:
  assumes "fit_records L b = Inr msgs" and "r \<in> set (fit_extracted L b)"
  shows "\<exists>msg \<in> set msgs. r = to_utc (to_datetime L) (fit_row msg empty_row)"
  using assms by (auto simp: fit_extracted_def fit_rows_filter)

text \<open>
  Claim C4. The row extracted from a decoded record message has \<^verbatim>\<open>speed_kmh\<close> equal to
  the raw speed times \<^verbatim>\<open>3.6\<close> (the float product) when the message has a speed value,
  and absent when it has none; the conversion of the timestamp leaves the cell alone, the
  rows appended are those of the messages with a timestamp, and every row of the
  resulting dataset is the row of one of the messages.
\<close>

theorem fit_speed_conversion:
  "speed_kmh (fit_row msg empty_row) =
     map_option (\<lambda>v. float_mul v (round_double (18 / 5))) (raw_speed msg) \<and>
   (raw_speed msg = None \<longrightarrow> speed_kmh (fit_row msg empty_row) = None) \<and>
   speed_kmh (to_utc conv (fit_row msg empty_row)) = speed_kmh (fit_row msg empty_row) \<and>
   fit_rows msgs =
     filter (\<lambda>r. timestamp r \<noteq> None) (map (\<lambda>msg. fit_row msg empty_row) msgs) \<and>
   (sorts_by_timestamp (sort_values L) \<longrightarrow> fit_records L b = Inr msgs \<longrightarrow>
    parse_fit_bytes L b = Inr df \<longrightarrow>
    (\<forall>r \<in> set df. \<exists>msg \<in> set msgs.
       speed_kmh r = map_option (\<lambda>v. float_mul v (round_double (18 / 5))) (raw_speed msg)))"
proof (intro conjI impI)
  show eq: "speed_kmh (fit_row msg empty_row) =
      map_option (\<lambda>v. float_mul v (round_double (18 / 5))) (raw_speed msg)" for msg :: "'c fit_field list"
    by (simp add: fit_row_speed empty_row_def kmh_per_ms_def split: option.splits)
  show "speed_kmh (fit_row msg empty_row) = None" if "raw_speed msg = None"
    using that by (simp add: fit_row_speed empty_row_def)
  show "speed_kmh (to_utc conv (fit_row msg empty_row)) = speed_kmh (fit_row msg empty_row)"
    by (simp add: to_utc_def)
  show "fit_rows msgs =
      filter (\<lambda>r. timestamp r \<noteq> None) (map (\<lambda>msg. fit_row msg empty_row) msgs)"
    by (rule fit_rows_filter)
  show "\<forall>r \<in> set df. \<exists>msg \<in> set msgs.
       speed_kmh r = map_option (\<lambda>v. float_mul v (round_double (18 / 5))) (raw_speed msg)"
    if srt: "sorts_by_timestamp (sort_values L)" and msgs: "fit_records L b = Inr msgs"
      and df: "parse_fit_bytes L b = Inr df"
  proof
    fix r assume "r \<in> set df"
    moreover have "set df = set (fit_extracted L b)"
      using parse_fit_bytes_extracted(1) [OF srt df] by (rule mset_eq_setD)
    ultimately have "r \<in> set (fit_extracted L b)" by simp
    from fit_extracted_row [OF msgs this] obtain msg
      where "msg \<in> set msgs" and "r = to_utc (to_datetime L) (fit_row msg empty_row)" by blast
    then show "\<exists>msg \<in> set msgs.
       speed_kmh r = map_option (\<lambda>v. float_mul v (round_double (18 / 5))) (raw_speed msg)"
      using eq [of msg] by (auto simp: to_utc_def)
  qed
qed

theorem fit_speed_conversion_witness:
  "sorts_by_timestamp (sort_values sample_libs) \<and>
   fit_records sample_libs [1] = Inr sample_msgs \<and>
   parse_fit_bytes sample_libs [1] =
     Inr [sample_row 1704067200000000000 (Some 150) None (Some 18),
          sample_row 1704067201000000000 (Some 152) (Some 200) None] \<and>
   raw_speed (sample_msgs ! 2) = Some (Finite 5) \<and>
   speed_kmh (fit_row (sample_msgs ! 2) empty_row) = Some (Finite 18) \<and>
   raw_speed (sample_msgs ! 0) = None \<and>
   speed_kmh (fit_row (sample_msgs ! 0) empty_row) = None \<and>
   speed_kmh (sample_row 1704067200000000000 (Some 150) None (Some 18)) =
     map_option (\<lambda>v. float_mul v (round_double (18 / 5))) (raw_speed (sample_msgs ! 2)) \<and>
   speed_kmh (sample_row 1704067201000000000 (Some 152) (Some 200) None) =
     map_option (\<lambda>v. float_mul v (round_double (18 / 5))) (raw_speed (sample_msgs ! 0))"
proof -
  have h: "sorts_by_timestamp (sort_values sample_libs)"
    by (simp add: sample_libs_def sorts_by_timestamp_stable_sort)
  have m: "fit_records sample_libs [1] = Inr sample_msgs"
    by (simp add: sample_libs_def sample_fit_records_def)
  have s2: "raw_speed (sample_msgs ! 2) = Some (Finite 5)"
    and s0: "raw_speed (sample_msgs ! 0) = None"
    by (simp_all add: sample_msgs_def)
  have v: "float_mul (Finite 5) (round_double (18 / 5)) = Finite 18"
    using sample_speed by (simp add: kmh_per_ms_def)
  note t = fit_speed_conversion [where L = sample_libs and b = "[1]" and msgs = sample_msgs
      and df = "[sample_row 1704067200000000000 (Some 150) None (Some 18),
                 sample_row 1704067201000000000 (Some 152) (Some 200) None]"]
  from t [where msg = "sample_msgs ! 2"] t [where msg = "sample_msgs ! 0"]
  show ?thesis
    using h m s2 s0 v sample_fit_dataset by (simp add: sample_row_def)
qed

section \<open>The Series Projector\<close>

lemma points_present:
  "\<forall>r \<in> set xs. present c r \<Longrightarrow>
   points (zip (map timestamp_ms xs) (map (cell c) xs)) = map (spec_point c) xs"
proof (induction xs)
  case Nil
  then show ?case by simp
next
  case (Cons r xs)
  from Cons.prems have "present c r" by simp
  then obtain t v where "timestamp r = Some t" and "cell c r = Some v"
    by (auto simp: present_def isna_def)
  with Cons show ?case
    by (simp add: timestamp_ms_def spec_point_def)
qed

lemma dataframe_to_apex_series_supported:
  assumes "c \<in> set SUPPORTED_METRICS"
  shows "dataframe_to_apex_series df c n = Inr \<lparr>name = n, data = spec_projection df c\<rparr>"
proof -
  have ts: "c \<noteq> ''timestamp''"
    using assms by (auto simp: supported_cases)
  have pts: "points (zip (map timestamp_ms (filter (present c) df))
                         (map (cell c) (filter (present c) df))) = spec_projection df c"
    unfolding spec_projection_def by (rule points_present) simp
  show ?thesis
  proof (cases "filter (present c) df = []")
    case True
    then show ?thesis
      using assms by (simp add: dataframe_to_apex_series_def dropna_metric spec_projection_def)
  next
    case False
    then have "df \<noteq> []" by auto
    with False ts pts show ?thesis
      using assms by (simp add: dataframe_to_apex_series_def dropna_metric)
  qed
qed

lemma spec_projection_point:
  assumes "p \<in> set (spec_projection df c)"
  shows "snd p \<noteq> NaN \<and> (\<exists>r \<in> set df. present c r \<and> p = spec_point c r)"
proof -
  from assms obtain r where r: "r \<in> set df" "present c r" "p = spec_point c r"
    by (auto simp: spec_projection_def)
  from r(2) obtain v where "cell c r = Some v" "v \<noteq> NaN"
    by (auto simp: present_def isna_def)
  with r show ?thesis by (auto simp: spec_point_def)
qed

text \<open>
  Claim C5. For a supported metric the projector returns the series named as asked whose
  data is the specification's projection: one point \<open>(ms, value)\<close> for each row that has
  both the timestamp and the metric, in row order, and nothing for the other rows. So the
  value of a point is never a NaN, every point carries the value of a row, there are as
  many points as rows with both present, and the data is empty exactly when no row carries
  the metric (in particular for the empty dataset).
\<close>

theorem projector_points:
  assumes "c \<in> set SUPPORTED_METRICS"
  shows "dataframe_to_apex_series df c n = Inr \<lparr>name = n, data = spec_projection df c\<rparr> \<and>
         (\<forall>p \<in> set (spec_projection df c).
            snd p \<noteq> NaN \<and> (\<exists>r \<in> set df. present c r \<and> p = spec_point c r)) \<and>
         length (spec_projection df c) = length (filter (present c) df) \<and>
         (spec_projection df c = [] \<longleftrightarrow> (\<forall>r \<in> set df. \<not> present c r)) \<and>
         spec_projection [] c = []"
proof (intro conjI)
  show "dataframe_to_apex_series df c n = Inr \<lparr>name = n, data = spec_projection df c\<rparr>"
    using assms by (rule dataframe_to_apex_series_supported)
  show "\<forall>p \<in> set (spec_projection df c).
      snd p \<noteq> NaN \<and> (\<exists>r \<in> set df. present c r \<and> p = spec_point c r)"
    using spec_projection_point by blast
  show "length (spec_projection df c) = length (filter (present c) df)"
    by (simp add: spec_projection_def)
  show "spec_projection df c = [] \<longleftrightarrow> (\<forall>r \<in> set df. \<not> present c r)"
    by (simp add: spec_projection_def filter_empty_conv)
  show "spec_projection [] c = []"
    by (simp add: spec_projection_def)
qed

lemma sample_projection_speed:
  "spec_projection [sample_row 1704067200000000000 (Some 150) None (Some 18),
                    sample_row 1704067201000000000 (Some 152) (Some 200) None] ''speed_kmh'' =
     [(1704067200000, Finite 18)]"
  by (simp add: spec_projection_def present_def spec_point_def cell_def isna_def sample_row_def)

theorem projector_points_witness:
  "''speed_kmh'' \<in> set SUPPORTED_METRICS \<and>
   dataframe_to_apex_series
     [sample_row 1704067200000000000 (Some 150) None (Some 18),
      sample_row 1704067201000000000 (Some 152) (Some 200) None] ''speed_kmh'' ''f.fit'' =
     Inr \<lparr>name = ''f.fit'', data = [(1704067200000, Finite 18)]\<rparr>"
proof -
  have h: "''speed_kmh'' \<in> set SUPPORTED_METRICS"
    by (simp add: SUPPORTED_METRICS_def)
  show ?thesis
    using h projector_points [OF h,
        of "[sample_row 1704067200000000000 (Some 150) None (Some 18),
             sample_row 1704067201000000000 (Some 152) (Some 200) None]" "''f.fit''"]
    by (simp add: sample_projection_speed)
qed



section \<open>The Batch Aggregator\<close>

lemma init_series_response_keys:
  "init_series_response ''hr_bpm'' = Some []"
  "init_series_response ''speed_kmh'' = Some []"
  "init_series_response ''power_w'' = Some []"
  "dom init_series_response = set SUPPORTED_METRICS"
  by (auto simp: init_series_response_def SUPPORTED_METRICS_def split: if_splits)

text \<open>
  One file with rows: every supported metric with points gets the file's series appended,
  the other entries stay, and no \<open>KeyError\<close> arises.
\<close>

lemma append_series_result:
  assumes "set ms \<subseteq> set SUPPORTED_METRICS" and "set ms \<subseteq> dom acc" and "distinct ms"
  shows "\<exists>acc'. append_series df fname ms acc = Inr acc' \<and> dom acc' = dom acc \<and>
           (\<forall>m. acc' m =
              (if m \<in> set ms \<and> spec_projection df m \<noteq> []
               then Some (the (acc m) @ [\<lparr>name = fname, data = spec_projection df m\<rparr>])
               else acc m))"
  using assms
proof (induction ms arbitrary: acc)
  case Nil
  then show ?case by simp
next
  case (Cons c ms)
  from Cons.prems have c: "c \<in> set SUPPORTED_METRICS" and cd: "c \<in> dom acc"
    and cn: "c \<notin> set ms" by auto
  from cd obtain l where l: "acc c = Some l" by auto
  note proj = dataframe_to_apex_series_supported [OF c, of df fname]
  show ?case
  proof (cases "spec_projection df c = []")
    case True
    from Cons.prems have "set ms \<subseteq> set SUPPORTED_METRICS" "set ms \<subseteq> dom acc" "distinct ms"
      by auto
    from Cons.IH [OF this] obtain acc' where
      "append_series df fname ms acc = Inr acc'" "dom acc' = dom acc"
      "\<forall>m. acc' m =
          (if m \<in> set ms \<and> spec_projection df m \<noteq> []
           then Some (the (acc m) @ [\<lparr>name = fname, data = spec_projection df m\<rparr>])
           else acc m)"
      by blast
    with True proj show ?thesis by auto
  next
    case False
    let ?acc = "acc(c \<mapsto> l @ [\<lparr>name = fname, data = spec_projection df c\<rparr>])"
    from Cons.prems have "set ms \<subseteq> set SUPPORTED_METRICS" "set ms \<subseteq> dom ?acc" "distinct ms"
      by auto
    from Cons.IH [OF this] obtain acc' where acc':
      "append_series df fname ms ?acc = Inr acc'" "dom acc' = dom ?acc"
      "\<forall>m. acc' m =
          (if m \<in> set ms \<and> spec_projection df m \<noteq> []
           then Some (the (?acc m) @ [\<lparr>name = fname, data = spec_projection df m\<rparr>])
           else ?acc m)"
      by blast
    have "append_series df fname (c # ms) acc = Inr acc'"
      using False proj l acc'(1) by simp
    moreover have "dom acc' = dom acc"
      using acc'(2) cd by auto
    moreover have "\<forall>m. acc' m =
          (if m \<in> set (c # ms) \<and> spec_projection df m \<noteq> []
           then Some (the (acc m) @ [\<lparr>name = fname, data = spec_projection df m\<rparr>])
           else acc m)"
      using acc'(3) cn l False by auto
    ultimately show ?thesis by blast
  qed
qed

lemma file_series_rows:
  assumes "m \<in> set SUPPORTED_METRICS"
    and "extract_dataframe_from_file L (upload_name f) (content f) = Inr df"
  shows "file_series L m f =
     (if spec_projection df m \<noteq> []
      then [\<lparr>name = upload_name f, data = spec_projection df m\<rparr>] else [])"
proof (cases "df = []")
  case True
  with assms(2) show ?thesis by (simp add: file_series_def spec_projection_def)
next
  case False
  with assms show ?thesis
    by (simp add: file_series_def dataframe_to_apex_series_supported)
qed

lemma parse_files_step:
  "parse_files L (f # fs) acc =
     (case extract_dataframe_from_file L (upload_name f) (content f) of
        Inl e \<Rightarrow> Inl e
      | Inr df \<Rightarrow>
          if df = [] then parse_files L fs acc
          else
            (case append_series df (upload_name f) SUPPORTED_METRICS acc of
               Inl e \<Rightarrow> Inl e
             | Inr acc' \<Rightarrow> parse_files L fs acc'))"
  by (simp only: parse_files.simps Let_def upload_name_def)

lemma parse_files_result:
  assumes "set SUPPORTED_METRICS \<subseteq> dom acc" and "parse_files L files acc = Inr acc'"
  shows "dom acc' = dom acc \<and>
         (\<forall>m \<in> set SUPPORTED_METRICS.
            acc' m = Some (the (acc m) @ concat (map (file_series L m) files)))"
  using assms
proof (induction files arbitrary: acc)
  case Nil
  then show ?case by auto
next
  case (Cons f fs)
  from Cons.prems(2) obtain df where
    df: "extract_dataframe_from_file L (upload_name f) (content f) = Inr df"
    by (cases "extract_dataframe_from_file L (upload_name f) (content f)")
      (auto simp: parse_files_step simp del: parse_files.simps)
  show ?case
  proof (cases "df = []")
    case True
    with Cons.prems(2) df have "parse_files L fs acc = Inr acc'"
      by (simp add: parse_files_step del: parse_files.simps)
    from Cons.IH [OF Cons.prems(1) this] True df show ?thesis
      by (simp add: file_series_rows spec_projection_def)
  next
    case False
    have d: "distinct SUPPORTED_METRICS" by (simp add: SUPPORTED_METRICS_def)
    from append_series_result [OF subset_refl Cons.prems(1) d, of df "upload_name f"]
    obtain acc1 where acc1:
      "append_series df (upload_name f) SUPPORTED_METRICS acc = Inr acc1" "dom acc1 = dom acc"
      "\<forall>m. acc1 m =
          (if m \<in> set SUPPORTED_METRICS \<and> spec_projection df m \<noteq> []
           then Some (the (acc m) @ [\<lparr>name = upload_name f, data = spec_projection df m\<rparr>])
           else acc m)"
      by blast
    from Cons.prems(2) df False acc1(1) have rest: "parse_files L fs acc1 = Inr acc'"
      by (simp add: parse_files_step del: parse_files.simps)
    from Cons.prems(1) acc1(2) have "set SUPPORTED_METRICS \<subseteq> dom acc1" by simp
    from Cons.IH [OF this rest] have ih: "dom acc' = dom acc1"
      "\<forall>m \<in> set SUPPORTED_METRICS.
          acc' m = Some (the (acc1 m) @ concat (map (file_series L m) fs))"
      by auto
    show ?thesis
    proof (intro conjI ballI)
      show "dom acc' = dom acc" using ih(1) acc1(2) by simp
      fix m assume m: "m \<in> set SUPPORTED_METRICS"
      with Cons.prems(1) obtain l where l: "acc m = Some l" by auto
      from m ih(2) have "acc' m = Some (the (acc1 m) @ concat (map (file_series L m) fs))"
        by blast
      with acc1(3) m l df
      show "acc' m = Some (the (acc m) @ concat (map (file_series L m) (f # fs)))"
        by (simp add: file_series_rows)
    qed
  qed
qed

lemma parse_files_raises:
  assumes "set SUPPORTED_METRICS \<subseteq> dom acc" and "parse_files L files acc = Inl e"
  shows "\<exists>f \<in> set files. extract_dataframe_from_file L (upload_name f) (content f) = Inl e"
  using assms
proof (induction files arbitrary: acc)
  case Nil
  then show ?case by simp
next
  case (Cons f fs)
  show ?case
  proof (cases "extract_dataframe_from_file L (upload_name f) (content f)")
    case (Inl e')
    with Cons.prems(2) show ?thesis
      by (simp add: parse_files_step del: parse_files.simps)
  next
    case (Inr df)
    show ?thesis
    proof (cases "df = []")
      case True
      with Cons.prems(2) Inr have "parse_files L fs acc = Inl e"
        by (simp add: parse_files_step del: parse_files.simps)
      from Cons.IH [OF Cons.prems(1) this] show ?thesis by auto
    next
      case False
      have d: "distinct SUPPORTED_METRICS" by (simp add: SUPPORTED_METRICS_def)
      from append_series_result [OF subset_refl Cons.prems(1) d, of df "upload_name f"]
      obtain acc1 where acc1:
        "append_series df (upload_name f) SUPPORTED_METRICS acc = Inr acc1" "dom acc1 = dom acc"
        by blast
      from Cons.prems(2) Inr False acc1(1) have rest: "parse_files L fs acc1 = Inl e"
        by (simp add: parse_files_step del: parse_files.simps)
      from Cons.prems(1) acc1(2) have "set SUPPORTED_METRICS \<subseteq> dom acc1" by simp
      from Cons.IH [OF this rest] show ?thesis by auto
    qed
  qed
qed

lemma parse_files_returns:
  assumes "set SUPPORTED_METRICS \<subseteq> dom acc"
    and "\<forall>f \<in> set files. \<exists>df. extract_dataframe_from_file L (upload_name f) (content f) = Inr df"
  shows "\<exists>acc'. parse_files L files acc = Inr acc'"
proof (cases "parse_files L files acc")
  case (Inl e)
  from parse_files_raises [OF assms(1) Inl] assms(2) show ?thesis by auto
next
  case (Inr acc')
  then show ?thesis by blast
qed

lemma parse_activity_files_series:
  assumes "parse_activity_files L files = Inr resp"
  shows "parse_files L files init_series_response = Inr (series resp)"
  using assms by (auto simp: parse_activity_files_def split: sum.splits)

lemma file_series_shape:
  "length (file_series L m f) \<le> 1 \<and>
   (\<forall>s \<in> set (file_series L m f). name s = upload_name f \<and> data s \<noteq> [])"
proof (cases "m \<in> set SUPPORTED_METRICS")
  case True
  then show ?thesis
    by (auto simp: file_series_def dataframe_to_apex_series_supported split: sum.splits)
next
  case False
  show ?thesis
  proof (cases "extract_dataframe_from_file L (upload_name f) (content f)")
    case (Inl e)
    then show ?thesis by (simp add: file_series_def)
  next
    case (Inr df)
    show ?thesis
    proof (cases "dataframe_to_apex_series df m (upload_name f)")
      case (Inl e)
      with Inr show ?thesis by (simp add: file_series_def)
    next
      case s: (Inr s)
      have "name s = upload_name f"
        using s by (auto simp: dataframe_to_apex_series_def split: if_splits sum.splits)
      with Inr s show ?thesis by (simp add: file_series_def)
    qed
  qed
qed

lemma sample_tcx_rows:
  "tcx_rows sample_libs (normalize_tcx_nsmap sample_doc) (trackpoints_of sample_doc) =
     Inr [sample_row 1704067201000000000 None None None,
          sample_row 1704067200000000000 (Some 140) None None]"
proof -
  have n: "normalize_tcx_nsmap sample_doc ''tcx'' = Some tcx_ns"
    by (simp add: normalize_tcx_nsmap_def sample_doc_def tcx_ns_def)
  note nt = name_test_tcx [of "normalize_tcx_nsmap sample_doc" tcx_ns, OF n]
  have i: "safe_int (Some ''140'') = Inr (Some 140)"
    by (simp add: safe_int_def except_value_type_def str_eval float_eval)
  have f: "float_of_int 140 = Finite 140"
    by (simp add: float_of_int_def float_eval)
  have tp: "trackpoints_of sample_doc =
     [Element [] tcx_ns ''Trackpoint'' None [leaf ''Time'' ''2024-01-01T00:00:01Z''],
      Element [] tcx_ns ''Trackpoint'' None
        [Element [] tcx_ns ''HeartRateBpm'' None [leaf ''Value'' ''141'']],
      Element [] tcx_ns ''Trackpoint'' None
        [leaf ''Time'' ''2024-01-01T00:00:00Z'',
         Element [] tcx_ns ''HeartRateBpm'' None [leaf ''Value'' ''140'']]]"
    by (simp add: trackpoints_of_def xpath_def nt)
      (simp add: sample_doc_def leaf_def tcx_ns_def)
  show ?thesis
    unfolding tp
    by (simp add: get_first_xpath_text_def xpath_def nt leaf_def
        sample_libs_def text_to_ns_def safe_int_blank i f sample_row_def)
qed

lemma sample_tcx_dataset:
  "parse_tcx_bytes sample_libs [1] =
     Inr [sample_row 1704067200000000000 (Some 140) None None,
          sample_row 1704067201000000000 None None None]"
proof -
  have "fromstring sample_libs [1] = Inr sample_doc"
    by (simp add: sample_libs_def sample_fromstring_def)
  moreover have "sort_values sample_libs = stable_sort"
    by (simp add: sample_libs_def)
  ultimately show ?thesis
    by (simp add: parse_tcx_bytes_def xpath_trackpoints sample_tcx_rows dropna_sort_returns)
      (simp add: sample_row_def stable_sort_def ts_key_def)
qed

lemma sample_names:
  "endswith (lower ''a.FIT'') ''.fit''"
  "\<not> endswith (lower ''ride.gpx'') ''.fit''" "\<not> endswith (lower ''ride.gpx'') ''.tcx''"
  "\<not> endswith (lower ''b.tcx'') ''.fit''" "endswith (lower ''b.tcx'') ''.tcx''"
  by (simp_all add: endswith_def lower_def lower_char_def)

lemma sample_batch_extract:
  "extract_dataframe_from_file sample_libs ''a.FIT'' [1] =
     Inr [sample_row 1704067200000000000 (Some 150) None (Some 18),
          sample_row 1704067201000000000 (Some 152) (Some 200) None]"
  "extract_dataframe_from_file sample_libs ''ride.gpx'' [1] = Inr []"
  "extract_dataframe_from_file sample_libs ''b.tcx'' [1] =
     Inr [sample_row 1704067200000000000 (Some 140) None None,
          sample_row 1704067201000000000 None None None]"
  by (simp_all add: extract_dataframe_from_file_def sample_names sample_fit_dataset
      sample_tcx_dataset)

lemma sample_batch_returns: "\<exists>resp. parse_activity_files sample_libs sample_batch = Inr resp"
proof -
  have "\<forall>f \<in> set sample_batch.
      \<exists>df. extract_dataframe_from_file sample_libs (upload_name f) (content f) = Inr df"
    by (simp add: sample_batch_def upload_name_def sample_batch_extract)
  with parse_files_returns [of init_series_response sample_batch sample_libs]
  obtain acc' where "parse_files sample_libs sample_batch init_series_response = Inr acc'"
    by (auto simp: init_series_response_keys)
  then show ?thesis by (simp add: parse_activity_files_def)
qed

lemma sample_batch_hr:
  "concat (map (file_series sample_libs ''hr_bpm'') sample_batch) =
     [\<lparr>name = ''a.FIT'', data = [(1704067200000, Finite 150), (1704067201000, Finite 152)]\<rparr>,
      \<lparr>name = ''b.tcx'', data = [(1704067200000, Finite 140)]\<rparr>]"
proof -
  have h: "''hr_bpm'' \<in> set SUPPORTED_METRICS" by (simp add: SUPPORTED_METRICS_def)
  show ?thesis
    by (simp add: sample_batch_def file_series_rows [OF h] upload_name_def sample_batch_extract)
      (simp add: spec_projection_def present_def spec_point_def cell_def isna_def sample_row_def)
qed

text \<open>
  Claim C6. When the batch returns, the collection of each supported metric is, file by
  file in the order of submission, the series of that file for the metric when the
  series has points and nothing otherwise: a file contributes at most one series, it
  carries the file's name, and no series with empty data is in a collection.
\<close>

theorem batch_order:
  assumes "parse_activity_files L files = Inr resp" and "m \<in> set SUPPORTED_METRICS"
  shows "series resp m = Some (concat (map (file_series L m) files)) \<and>
         (\<forall>f \<in> set files.
            length (file_series L m f) \<le> 1 \<and>
            (\<forall>s \<in> set (file_series L m f). name s = upload_name f \<and> data s \<noteq> [])) \<and>
         (\<forall>s \<in> set (concat (map (file_series L m) files)). data s \<noteq> [])"
proof -
  have dom: "set SUPPORTED_METRICS \<subseteq> dom init_series_response"
    by (simp add: init_series_response_keys)
  have init: "init_series_response m = Some []"
    using assms(2) by (auto simp: supported_cases init_series_response_keys)
  from parse_files_result [OF dom parse_activity_files_series [OF assms(1)]] assms(2) init
  have "series resp m = Some (concat (map (file_series L m) files))" by simp
  moreover have "\<forall>s \<in> set (concat (map (file_series L m) files)). data s \<noteq> []"
    using file_series_shape by fastforce
  ultimately show ?thesis using file_series_shape by blast
qed

theorem batch_order_witness:
  "\<exists>resp. parse_activity_files sample_libs sample_batch = Inr resp \<and>
     ''hr_bpm'' \<in> set SUPPORTED_METRICS \<and>
     series resp ''hr_bpm'' =
       Some [\<lparr>name = ''a.FIT'',
               data = [(1704067200000, Finite 150), (1704067201000, Finite 152)]\<rparr>,
             \<lparr>name = ''b.tcx'', data = [(1704067200000, Finite 140)]\<rparr>]"
proof -
  from sample_batch_returns obtain resp
    where r: "parse_activity_files sample_libs sample_batch = Inr resp" by blast
  have h: "''hr_bpm'' \<in> set SUPPORTED_METRICS" by (simp add: SUPPORTED_METRICS_def)
  from batch_order [OF r h] have
    "series resp ''hr_bpm'' = Some (concat (map (file_series sample_libs ''hr_bpm'') sample_batch))"
    by blast
  with r h show ?thesis by (auto simp: sample_batch_hr)
qed

text \<open>
  Claim C10. The empty batch returns the initial mapping, which binds \<^verbatim>\<open>hr_bpm\<close>,
  \<^verbatim>\<open>speed_kmh\<close> and \<^verbatim>\<open>power_w\<close> to the empty list and nothing else; the mapping a
  batch returns has exactly these three keys; when no file of the batch yields a series
  for a key, the key is bound to the empty list; and a batch fails to return a mapping
  only with the exception an extractor raised on one of its files.
\<close>

theorem response_keys:
  "parse_activity_files L [] = Inr \<lparr>series = init_series_response\<rparr> \<and>
   init_series_response =
     [''hr_bpm'' \<mapsto> [], ''speed_kmh'' \<mapsto> [], ''power_w'' \<mapsto> []] \<and>
   (parse_activity_files L files = Inr resp \<longrightarrow>
      dom (series resp) = {''hr_bpm'', ''speed_kmh'', ''power_w''} \<and>
      (\<forall>m \<in> set SUPPORTED_METRICS.
         (\<forall>f \<in> set files. file_series L m f = []) \<longrightarrow> series resp m = Some [])) \<and>
   (parse_activity_files L files = Inl e \<longrightarrow>
      (\<exists>f \<in> set files.
         extract_dataframe_from_file L (upload_name f) (content f) = Inl e))"
proof (intro conjI impI)
  have dom: "set SUPPORTED_METRICS \<subseteq> dom init_series_response"
    by (simp add: init_series_response_keys)
  show "parse_activity_files L [] = Inr \<lparr>series = init_series_response\<rparr>"
    by (simp add: parse_activity_files_def)
  show "init_series_response =
      [''hr_bpm'' \<mapsto> [], ''speed_kmh'' \<mapsto> [], ''power_w'' \<mapsto> []]"
    by (simp add: init_series_response_def SUPPORTED_METRICS_def)
  show "dom (series resp) = {''hr_bpm'', ''speed_kmh'', ''power_w''}"
    if "parse_activity_files L files = Inr resp"
    using parse_files_result [OF dom parse_activity_files_series [OF that]]
    by (simp add: init_series_response_keys SUPPORTED_METRICS_def)
  show "\<forall>m \<in> set SUPPORTED_METRICS.
      (\<forall>f \<in> set files. file_series L m f = []) \<longrightarrow> series resp m = Some []"
    if "parse_activity_files L files = Inr resp"
  proof (intro ballI impI)
    fix m assume m: "m \<in> set SUPPORTED_METRICS"
      and none: "\<forall>f \<in> set files. file_series L m f = []"
    have init: "init_series_response m = Some []"
      using m by (auto simp: supported_cases init_series_response_keys)
    from none have "concat (map (file_series L m) files) = []" by simp
    with parse_files_result [OF dom parse_activity_files_series [OF that]] m init
    show "series resp m = Some []" by simp
  qed
  show "\<exists>f \<in> set files. extract_dataframe_from_file L (upload_name f) (content f) = Inl e"
    if "parse_activity_files L files = Inl e"
  proof -
    from that have "parse_files L files init_series_response = Inl e"
      by (auto simp: parse_activity_files_def split: sum.splits)
    from parse_files_raises [OF dom this] show ?thesis .
  qed
qed

theorem response_keys_witness:
  "\<exists>resp. parse_activity_files sample_libs [\<lparr>filename = Some ''ride.gpx'', content = [1]\<rparr>] =
            Inr resp \<and>
     dom (series resp) = {''hr_bpm'', ''speed_kmh'', ''power_w''} \<and>
     series resp ''hr_bpm'' = Some [] \<and> series resp ''speed_kmh'' = Some [] \<and>
     series resp ''power_w'' = Some []"
proof -
  let ?files = "[\<lparr>filename = Some ''ride.gpx'', content = [1]\<rparr>]"
  have r: "parse_activity_files sample_libs ?files = Inr \<lparr>series = init_series_response\<rparr>"
    by (simp add: parse_activity_files_def sample_batch_extract)
  have none: "\<forall>f \<in> set ?files. file_series sample_libs m f = []" for m
    by (simp add: file_series_def upload_name_def sample_batch_extract)
  from response_keys [of sample_libs ?files "\<lparr>series = init_series_response\<rparr>"] r none
  show ?thesis
    by (simp add: SUPPORTED_METRICS_def)
qed

section \<open>The Format Sniffer\<close>

lemma lower_append: "lower (xs @ ys) = lower xs @ lower ys"
  by (simp add: lower_def)

lemma endswith_append: "endswith (xs @ s) s"
  by (simp add: endswith_def)

lemma endswith_iff: "endswith s suffix \<longleftrightarrow> (\<exists>base. s = base @ suffix)"
proof
  assume "endswith s suffix"
  then have "s = take (length s - length suffix) s @ suffix"
    by (metis append_take_drop_id endswith_def)
  then show "\<exists>base. s = base @ suffix" ..
next
  assume "\<exists>base. s = base @ suffix"
  then show "endswith s suffix" by (auto simp: endswith_append)
qed

lemma endswith_lower_iff:
  "endswith (lower fname) s \<longleftrightarrow> (\<exists>base ext. fname = base @ ext \<and> lower ext = s)"
proof
  assume e: "endswith (lower fname) s"
  let ?k = "length fname - length s"
  have "lower (drop ?k fname) = drop ?k (lower fname)"
    by (simp add: lower_def drop_map)
  also have "\<dots> = s" using e by (simp add: endswith_def lower_def)
  finally have "fname = take ?k fname @ drop ?k fname \<and> lower (drop ?k fname) = s" by simp
  then show "\<exists>base ext. fname = base @ ext \<and> lower ext = s" by blast
next
  assume "\<exists>base ext. fname = base @ ext \<and> lower ext = s"
  then show "endswith (lower fname) s"
    by (auto simp: lower_append endswith_append)
qed

lemma fit_not_tcx: "endswith s ''.tcx'' \<Longrightarrow> \<not> endswith s ''.fit''"
  by (auto simp: endswith_def)

lemma extract_unsupported_skipped:
  assumes "extract_dataframe_from_file L (upload_name f) (content f) = Inr []"
  shows "parse_files L (f # fs) acc = parse_files L fs acc" and "file_series L m f = []"
  using assms by (simp_all add: parse_files_step file_series_def del: parse_files.simps)

text \<open>
  Claim C7. The format is selected by the suffix of the file name without regard to
  letter case: a name whose last four characters are \<^verbatim>\<open>.fit\<close> in any case goes to the
  binary extractor, one whose last four are \<^verbatim>\<open>.tcx\<close> in any case to the XML extractor,
  and any other name yields the empty dataset; such a file adds no series to any metric
  and the aggregator goes on with the files after it as if it were not there.
\<close>

theorem format_selection:
  "(lower ext = ''.fit'' \<longrightarrow>
      extract_dataframe_from_file L (base @ ext) b = parse_fit_bytes L b) \<and>
   (lower ext = ''.tcx'' \<longrightarrow>
      extract_dataframe_from_file L (base @ ext) b = parse_tcx_bytes L b) \<and>
   (endswith (lower fname) s \<longleftrightarrow> (\<exists>base ext. fname = base @ ext \<and> lower ext = s)) \<and>
   (\<not> endswith (lower fname) ''.fit'' \<longrightarrow> \<not> endswith (lower fname) ''.tcx'' \<longrightarrow>
      extract_dataframe_from_file L fname b = Inr []) \<and>
   (\<not> endswith (lower (upload_name f)) ''.fit'' \<longrightarrow>
    \<not> endswith (lower (upload_name f)) ''.tcx'' \<longrightarrow>
      parse_files L (f # fs) acc = parse_files L fs acc \<and> file_series L m f = [])"
proof (intro conjI impI)
  show "extract_dataframe_from_file L (base @ ext) b = parse_fit_bytes L b"
    if "lower ext = ''.fit''"
  proof -
    have "endswith (lower (base @ ext)) ''.fit''"
      using endswith_append [of "lower base" "''.fit''"] that by (simp add: lower_append)
    then show ?thesis by (simp add: extract_dataframe_from_file_def)
  qed
  show "extract_dataframe_from_file L (base @ ext) b = parse_tcx_bytes L b"
    if "lower ext = ''.tcx''"
  proof -
    have t: "endswith (lower (base @ ext)) ''.tcx''"
      using endswith_append [of "lower base" "''.tcx''"] that by (simp add: lower_append)
    from fit_not_tcx [OF t] t show ?thesis by (simp add: extract_dataframe_from_file_def)
  qed
  show "endswith (lower fname) s \<longleftrightarrow> (\<exists>base ext. fname = base @ ext \<and> lower ext = s)"
    by (rule endswith_lower_iff)
  show "extract_dataframe_from_file L fname b = Inr []"
    if "\<not> endswith (lower fname) ''.fit''" and "\<not> endswith (lower fname) ''.tcx''"
    using that by (simp add: extract_dataframe_from_file_def)
  assume "\<not> endswith (lower (upload_name f)) ''.fit''"
    and "\<not> endswith (lower (upload_name f)) ''.tcx''"
  then have e: "extract_dataframe_from_file L (upload_name f) (content f) = Inr []"
    by (simp add: extract_dataframe_from_file_def)
  show "parse_files L (f # fs) acc = parse_files L fs acc"
    using e by (rule extract_unsupported_skipped)
  show "file_series L m f = []"
    using e by (rule extract_unsupported_skipped)
qed

theorem format_selection_witness:
  "lower ''.FIT'' = ''.fit'' \<and>
   extract_dataframe_from_file sample_libs ''a.FIT'' [1] = parse_fit_bytes sample_libs [1] \<and>
   lower ''.TcX'' = ''.tcx'' \<and>
   extract_dataframe_from_file sample_libs ''b.TcX'' [1] = parse_tcx_bytes sample_libs [1] \<and>
   \<not> endswith (lower ''ride.gpx'') ''.fit'' \<and> \<not> endswith (lower ''ride.gpx'') ''.tcx'' \<and>
   extract_dataframe_from_file sample_libs ''ride.gpx'' [1] = Inr [] \<and>
   parse_files sample_libs
     [\<lparr>filename = Some ''ride.gpx'', content = [1]\<rparr>, \<lparr>filename = Some ''b.tcx'', content = [1]\<rparr>]
     init_series_response =
   parse_files sample_libs [\<lparr>filename = Some ''b.tcx'', content = [1]\<rparr>] init_series_response"
proof -
  have l: "lower ''.FIT'' = ''.fit''" "lower ''.TcX'' = ''.tcx''"
    by (simp_all add: lower_def lower_char_def)
  have u: "upload_name \<lparr>filename = Some ''ride.gpx'', content = [1]\<rparr> = ''ride.gpx''"
    by (simp add: upload_name_def)
  from format_selection [of "''.FIT''" sample_libs "''a''" "[1]"]
    format_selection [of "''.TcX''" sample_libs "''b''" "[1]"]
    format_selection [of _ sample_libs _ _ "''ride.gpx''" _
      "\<lparr>filename = Some ''ride.gpx'', content = [1]\<rparr>"
      "[\<lparr>filename = Some ''b.tcx'', content = [1]\<rparr>]" init_series_response]
  show ?thesis
    using l u sample_names by simp
qed

section \<open>Metrics of an XML file\<close>

lemma tcx_extracted_hr:
  assumes "r \<in> set (tcx_extracted L b)"
  shows "\<exists>e tp hr_text hr.
           fromstring L b = Inr e \<and> tp \<in> set (trackpoints_of e) \<and>
           get_first_xpath_text tp (ChildPath [(''tcx'', ''HeartRateBpm''), (''tcx'', ''Value'')])
             (normalize_tcx_nsmap e) = Inr hr_text \<and>
           safe_int hr_text = Inr hr \<and> hr_bpm r = map_option float_of_int hr"
proof (cases "fromstring L b")
  case (Inl e)
  with assms show ?thesis by (simp add: tcx_extracted_def)
next
  case (Inr e)
  show ?thesis
  proof (cases "tcx_rows L (normalize_tcx_nsmap e) (trackpoints_of e)")
    case (Inl err)
    with Inr assms show ?thesis by (simp add: tcx_extracted_def)
  next
    case rows: (Inr rows)
    with Inr assms have "r \<in> set rows" by (simp add: tcx_extracted_def)
    with tcx_rows_row [OF rows] Inr show ?thesis by blast
  qed
qed

lemma spec_projection_absent:
  assumes "\<forall>r \<in> set df. cell c r = None"
  shows "spec_projection df c = []"
  using assms by (simp add: spec_projection_def present_def isna_def filter_empty_conv)

text \<open>
  Claim C8. Every row of the dataset of an XML file has \<^verbatim>\<open>power_w\<close> and \<^verbatim>\<open>speed_kmh\<close>
  absent, and its \<^verbatim>\<open>hr_bpm\<close> is what \<^verbatim>\<open>safe_int\<close> returned for the text of
  \<^verbatim>\<open>HeartRateBpm/Value\<close> of one of the document's trackpoints; so the projections of the
  dataset for \<^verbatim>\<open>power_w\<close> and \<^verbatim>\<open>speed_kmh\<close> have no points. (\<^verbatim>\<open>sort_values\<close> is taken
  to return the rows it was given.)
\<close>

theorem tcx_metrics_absent:
  assumes "sorts_by_timestamp (sort_values L)" and "parse_tcx_bytes L b = Inr df"
  shows "(\<forall>r \<in> set df.
            power_w r = None \<and> speed_kmh r = None \<and>
            (\<exists>e tp hr_text hr.
               fromstring L b = Inr e \<and> tp \<in> set (trackpoints_of e) \<and>
               get_first_xpath_text tp
                 (ChildPath [(''tcx'', ''HeartRateBpm''), (''tcx'', ''Value'')])
                 (normalize_tcx_nsmap e) = Inr hr_text \<and>
               safe_int hr_text = Inr hr \<and> hr_bpm r = map_option float_of_int hr)) \<and>
         dataframe_to_apex_series df ''power_w'' n = Inr \<lparr>name = n, data = []\<rparr> \<and>
         dataframe_to_apex_series df ''speed_kmh'' n = Inr \<lparr>name = n, data = []\<rparr>"
proof -
  have s: "set df = set (tcx_extracted L b)"
    using parse_tcx_bytes_extracted(1) [OF assms] by (rule mset_eq_setD)
  have rows: "\<forall>r \<in> set df. power_w r = None \<and> speed_kmh r = None"
    using s tcx_extracted_row by blast
  have "spec_projection df ''power_w'' = []"
    by (rule spec_projection_absent) (simp add: cell_def rows)
  moreover have "spec_projection df ''speed_kmh'' = []"
    by (rule spec_projection_absent) (simp add: cell_def rows)
  moreover have "''power_w'' \<in> set SUPPORTED_METRICS" "''speed_kmh'' \<in> set SUPPORTED_METRICS"
    by (simp_all add: SUPPORTED_METRICS_def)
  ultimately have "dataframe_to_apex_series df ''power_w'' n = Inr \<lparr>name = n, data = []\<rparr>"
    "dataframe_to_apex_series df ''speed_kmh'' n = Inr \<lparr>name = n, data = []\<rparr>"
    by (simp_all add: dataframe_to_apex_series_supported)
  moreover have "\<forall>r \<in> set df. \<exists>e tp hr_text hr.
               fromstring L b = Inr e \<and> tp \<in> set (trackpoints_of e) \<and>
               get_first_xpath_text tp
                 (ChildPath [(''tcx'', ''HeartRateBpm''), (''tcx'', ''Value'')])
                 (normalize_tcx_nsmap e) = Inr hr_text \<and>
               safe_int hr_text = Inr hr \<and> hr_bpm r = map_option float_of_int hr"
    using s tcx_extracted_hr by blast
  ultimately show ?thesis using rows by blast
qed

theorem tcx_metrics_absent_witness:
  "sorts_by_timestamp (sort_values sample_libs) \<and>
   parse_tcx_bytes sample_libs [1] =
     Inr [sample_row 1704067200000000000 (Some 140) None None,
          sample_row 1704067201000000000 None None None] \<and>
   dataframe_to_apex_series
     [sample_row 1704067200000000000 (Some 140) None None,
      sample_row 1704067201000000000 None None None] ''power_w'' ''b.tcx'' =
     Inr \<lparr>name = ''b.tcx'', data = []\<rparr> \<and>
   dataframe_to_apex_series
     [sample_row 1704067200000000000 (Some 140) None None,
      sample_row 1704067201000000000 None None None] ''speed_kmh'' ''b.tcx'' =
     Inr \<lparr>name = ''b.tcx'', data = []\<rparr>"
proof -
  have h: "sorts_by_timestamp (sort_values sample_libs)"
    by (simp add: sample_libs_def sorts_by_timestamp_stable_sort)
  from tcx_metrics_absent [OF h sample_tcx_dataset, of "''b.tcx''"]
  show ?thesis using h sample_tcx_dataset by blast
qed

section \<open>Files the collaborators cannot read\<close>

lemma parse_files_all_extracted:
  assumes "parse_files L files acc = Inr acc'" and "f \<in> set files"
  shows "\<exists>df. extract_dataframe_from_file L (upload_name f) (content f) = Inr df"
  using assms
proof (induction files arbitrary: acc)
  case Nil
  then show ?case by simp
next
  case (Cons g gs)
  from Cons.prems(1) obtain df where
    df: "extract_dataframe_from_file L (upload_name g) (content g) = Inr df"
    by (cases "extract_dataframe_from_file L (upload_name g) (content g)")
      (auto simp: parse_files_step simp del: parse_files.simps)
  show ?case
  proof (cases "f = g")
    case True
    with df show ?thesis by blast
  next
    case False
    with Cons.prems(2) have f: "f \<in> set gs" by simp
    from Cons.prems(1) df obtain acc1 where "parse_files L gs acc1 = Inr acc'"
      by (auto simp: parse_files_step simp del: parse_files.simps split: if_splits sum.splits)
    from Cons.IH [OF this f] show ?thesis .
  qed
qed

lemma batch_raises:
  assumes "f \<in> set files"
    and "extract_dataframe_from_file L (upload_name f) (content f) = Inl e"
  shows "\<exists>e'. parse_activity_files L files = Inl e'"
proof (cases "parse_files L files init_series_response")
  case (Inl e')
  then show ?thesis by (simp add: parse_activity_files_def)
next
  case (Inr acc')
  from parse_files_all_extracted [OF Inr assms(1)] assms(2) show ?thesis by simp
qed

text \<open>
  Claim C1, amended. For a file named \<^verbatim>\<open>.fit\<close> or \<^verbatim>\<open>.tcx\<close> whose collaborator yields
  no messages (no trackpoint nodes), the extractor returns the empty dataset, the file
  adds nothing to any metric, and the aggregator continues with the remaining files as if
  the file were not there. When the collaborator raises, the extractor raises the same
  exception, a batch that starts with the file fails with it, and no batch that contains
  the file returns a result.
\<close>

theorem unreadable_file:
  "(endswith (lower (upload_name f)) ''.fit'' \<longrightarrow>
      (fit_records L (content f) = Inr [] \<longrightarrow>
         extract_dataframe_from_file L (upload_name f) (content f) = Inr [] \<and>
         file_series L m f = [] \<and>
         parse_files L (f # fs) acc = parse_files L fs acc) \<and>
      (fit_records L (content f) = Inl e \<longrightarrow>
         extract_dataframe_from_file L (upload_name f) (content f) = Inl e \<and>
         parse_activity_files L (f # fs) = Inl e \<and>
         (f \<in> set files \<longrightarrow> (\<exists>e'. parse_activity_files L files = Inl e')))) \<and>
   (endswith (lower (upload_name f)) ''.tcx'' \<longrightarrow>
      (fromstring L (content f) = Inr el \<longrightarrow> trackpoints_of el = [] \<longrightarrow>
         extract_dataframe_from_file L (upload_name f) (content f) = Inr [] \<and>
         file_series L m f = [] \<and>
         parse_files L (f # fs) acc = parse_files L fs acc) \<and>
      (fromstring L (content f) = Inl e \<longrightarrow>
         extract_dataframe_from_file L (upload_name f) (content f) = Inl e \<and>
         parse_activity_files L (f # fs) = Inl e \<and>
         (f \<in> set files \<longrightarrow> (\<exists>e'. parse_activity_files L files = Inl e'))))"
proof (intro conjI impI)
  assume fit: "endswith (lower (upload_name f)) ''.fit''"
  {
    assume "fit_records L (content f) = Inr []"
    with fit show x: "extract_dataframe_from_file L (upload_name f) (content f) = Inr []"
      by (simp add: extract_dataframe_from_file_def parse_fit_bytes_def)
    show "file_series L m f = []" using x by (rule extract_unsupported_skipped)
    show "parse_files L (f # fs) acc = parse_files L fs acc"
      using x by (rule extract_unsupported_skipped)
  }
  {
    assume "fit_records L (content f) = Inl e"
    with fit show x: "extract_dataframe_from_file L (upload_name f) (content f) = Inl e"
      by (simp add: extract_dataframe_from_file_def parse_fit_bytes_def)
    show "parse_activity_files L (f # fs) = Inl e"
      using x by (simp add: parse_activity_files_def parse_files_step del: parse_files.simps)
    show "\<exists>e'. parse_activity_files L files = Inl e'" if "f \<in> set files"
      using that x by (rule batch_raises)
  }
next
  assume tcx: "endswith (lower (upload_name f)) ''.tcx''"
  note nofit = fit_not_tcx [OF tcx]
  {
    assume "fromstring L (content f) = Inr el" and "trackpoints_of el = []"
    with tcx nofit show x: "extract_dataframe_from_file L (upload_name f) (content f) = Inr []"
      by (simp add: extract_dataframe_from_file_def parse_tcx_bytes_def xpath_trackpoints)
    show "file_series L m f = []" using x by (rule extract_unsupported_skipped)
    show "parse_files L (f # fs) acc = parse_files L fs acc"
      using x by (rule extract_unsupported_skipped)
  }
  {
    assume "fromstring L (content f) = Inl e"
    with tcx nofit show x: "extract_dataframe_from_file L (upload_name f) (content f) = Inl e"
      by (simp add: extract_dataframe_from_file_def parse_tcx_bytes_def)
    show "parse_activity_files L (f # fs) = Inl e"
      using x by (simp add: parse_activity_files_def parse_files_step del: parse_files.simps)
    show "\<exists>e'. parse_activity_files L files = Inl e'" if "f \<in> set files"
      using that x by (rule batch_raises)
  }
qed

theorem unreadable_file_witness:
  "endswith (lower (upload_name \<lparr>filename = Some ''a.fit'', content = [3]\<rparr>)) ''.fit'' \<and>
   fit_records sample_libs [3] = Inr [] \<and>
   extract_dataframe_from_file sample_libs ''a.fit'' [3] = Inr [] \<and>
   parse_files sample_libs (\<lparr>filename = Some ''a.fit'', content = [3]\<rparr> # sample_batch)
     init_series_response =
   parse_files sample_libs sample_batch init_series_response \<and>
   endswith (lower (upload_name \<lparr>filename = Some ''b.tcx'', content = []\<rparr>)) ''.tcx'' \<and>
   fromstring sample_libs [] = Inl XMLSyntaxError \<and>
   parse_activity_files sample_libs (\<lparr>filename = Some ''b.tcx'', content = []\<rparr> # sample_batch) =
     Inl XMLSyntaxError"
proof -
  let ?a = "\<lparr>filename = Some ''a.fit'', content = [3]\<rparr>"
  let ?b = "\<lparr>filename = Some ''b.tcx'', content = []\<rparr>"
  have n: "upload_name ?a = ''a.fit''" "upload_name ?b = ''b.tcx''"
    by (simp_all add: upload_name_def)
  have s: "endswith (lower ''a.fit'') ''.fit''" "endswith (lower ''b.tcx'') ''.tcx''"
    by (simp_all add: endswith_def lower_def lower_char_def)
  have d: "fit_records sample_libs [3] = Inr []" "fromstring sample_libs [] = Inl XMLSyntaxError"
    by (simp_all add: sample_libs_def sample_fit_records_def sample_fromstring_def)
  from unreadable_file [of ?a sample_libs _ sample_batch init_series_response]
    unreadable_file [of ?b sample_libs _ sample_batch _ XMLSyntaxError]
  show ?thesis
    using n s d by simp
qed

text \<open>
  Claim C1 as stated fails where the collaborator raises: with a decoder and a parser that
  raise on the empty payload, the extractors raise instead of returning the empty dataset,
  and a batch with such a file returns no result although its other file is good.
\<close>

theorem unreadable_file_counterexample:
  "extract_dataframe_from_file sample_libs ''a.fit'' [] = Inl FitParseError \<and>
   extract_dataframe_from_file sample_libs ''b.tcx'' [] = Inl XMLSyntaxError \<and>
   parse_activity_files sample_libs
     [\<lparr>filename = Some ''a.FIT'', content = [1]\<rparr>, \<lparr>filename = Some ''a.fit'', content = []\<rparr>] =
     Inl FitParseError"
proof -
  have s: "endswith (lower ''a.fit'') ''.fit''" "endswith (lower ''b.tcx'') ''.tcx''"
    "\<not> endswith (lower ''b.tcx'') ''.fit''"
    by (simp_all add: endswith_def lower_def lower_char_def)
  have d: "fit_records sample_libs [] = Inl FitParseError"
    "fromstring sample_libs [] = Inl XMLSyntaxError"
    by (simp_all add: sample_libs_def sample_fit_records_def sample_fromstring_def)
  have x: "extract_dataframe_from_file sample_libs ''a.fit'' [] = Inl FitParseError"
    "extract_dataframe_from_file sample_libs ''b.tcx'' [] = Inl XMLSyntaxError"
    using s d by (simp_all add: extract_dataframe_from_file_def parse_fit_bytes_def
        parse_tcx_bytes_def)
  have dom: "set SUPPORTED_METRICS \<subseteq> dom init_series_response"
    by (simp add: init_series_response_keys)
  have dist: "distinct SUPPORTED_METRICS" by (simp add: SUPPORTED_METRICS_def)
  from append_series_result [OF subset_refl dom dist]
  obtain acc1 where "append_series
      [sample_row 1704067200000000000 (Some 150) None (Some 18),
       sample_row 1704067201000000000 (Some 152) (Some 200) None] ''a.FIT''
      SUPPORTED_METRICS init_series_response = Inr acc1"
    by blast
  then have "parse_activity_files sample_libs
     [\<lparr>filename = Some ''a.FIT'', content = [1]\<rparr>, \<lparr>filename = Some ''a.fit'', content = []\<rparr>] =
     Inl FitParseError"
    using x
    by (simp add: parse_activity_files_def parse_files_step upload_name_def
        sample_batch_extract sample_row_def del: parse_files.simps)
  with x show ?thesis by simp
qed


end
